theory Spec2Isabelle
  imports Main
begin

section \<open>The chat interface: transcript, send handler and stream ingestion\<close>

text \<open>
  The development embeds the component \<^verbatim>\<open>ChatInterface\<close> (a React function component
  written in TypeScript): its state, \<^verbatim>\<open>getConversationHistory\<close> and
  \<^verbatim>\<open>handleSendMessage\<close>. Everything the handler obtains from the platform is an
  explicit input: the identifiers and times of the two messages it creates, the outcome
  of \<^verbatim>\<open>fetch\<close>, the successive results of \<^verbatim>\<open>reader.read()\<close>, and
  \<^verbatim>\<open>JSON.parse\<close>.

  Text is \<^typ>\<open>string\<close>: a list of 8-bit characters, standing for the code units of a
  JavaScript string below 256.
\<close>

subsection \<open>Messages and the component state\<close>

datatype role = User | Assistant

text \<open>\<^verbatim>\<open>interface Message { id; content; role; timestamp }\<close>; the time is in milliseconds.\<close>

record message =
  id_m :: string
  content :: string
  role :: role
  timestamp :: nat

text \<open>\<^verbatim>\<open>interface ConversationHistory { role; content }\<close>\<close>

record conversationHistory =
  role_h :: role
  content_h :: string

text \<open>The body of the POST request, before \<^verbatim>\<open>JSON.stringify\<close>, and the address.\<close>

record request =
  url :: string
  message :: string
  conversation_history :: "conversationHistory list"

text \<open>
  What a \<^verbatim>\<open>catch\<close> clause receives: an \<^verbatim>\<open>Error\<close> object with its message, or any
  other value.
\<close>

datatype thrown = ErrorObject string | OtherValue

text \<open>
  What the inner \<^verbatim>\<open>catch (parseError)\<close> hands to \<^verbatim>\<open>console.warn\<close>: the
  \<^verbatim>\<open>SyntaxError\<close> of \<^verbatim>\<open>JSON.parse\<close>, the \<^verbatim>\<open>TypeError\<close> of reading a property of
  \<^verbatim>\<open>null\<close>, or the \<^verbatim>\<open>Error\<close> made from \<^verbatim>\<open>data.error\<close>.
\<close>

datatype warning = SyntaxError | TypeError | PayloadError string

text \<open>
  The five \<^verbatim>\<open>useState\<close> cells of the component, and two logs of what the handler has
  done to the outside: the requests passed to \<^verbatim>\<open>fetch\<close> and the calls of
  \<^verbatim>\<open>console.warn\<close>, oldest first.
\<close>

record world =
  messages :: "message list"
  inputMessage :: string
  isLoading :: bool
  isStreaming :: bool
  error :: "string option"
  requests :: "request list"
  warnings :: "warning list"

subsection \<open>Library functions of JavaScript\<close>

text \<open>
  \<^verbatim>\<open>String.prototype.trim\<close> removes white space and line terminators at both ends;
  below 256 these are TAB, LF, VT, FF, CR, SP and NBSP.
\<close>

definition isWhiteSpace :: "char \<Rightarrow> bool" where
  "isWhiteSpace c \<longleftrightarrow> c \<in> {CHR 0x09, CHR 0x0A, CHR 0x0B, CHR 0x0C, CHR 0x0D, CHR 0x20, CHR 0xA0}"

definition trim :: "string \<Rightarrow> string" where
  "trim s = rev (dropWhile isWhiteSpace (rev (dropWhile isWhiteSpace s)))"

text \<open>\<^verbatim>\<open>s.startsWith(p)\<close> and \<^verbatim>\<open>s.slice(n)\<close> for \<open>n \<ge> 0\<close>.\<close>

definition startsWith :: "string \<Rightarrow> string \<Rightarrow> bool" where
  "startsWith p s \<longleftrightarrow> take (length p) s = p"

definition slice_s :: "nat \<Rightarrow> string \<Rightarrow> string" where
  "slice_s n s = drop n s"

text \<open>
  \<^verbatim>\<open>s.split('\n')\<close>: the pieces between line feeds; a text without one is a single
  piece, and the empty text gives one empty piece. The result is never empty, so a
  character other than a line feed always joins the first piece of what follows.
\<close>

fun split_nl :: "string \<Rightarrow> string list" where
  "split_nl [] = [[]]"
| "split_nl (c # cs) =
     (if c = CHR 0x0A then [] # split_nl cs
      else (case split_nl cs of
              [] \<Rightarrow> [[c]]
            | piece # pieces \<Rightarrow> (c # piece) # pieces))"

text \<open>
  \<^verbatim>\<open>xs.slice(start)\<close> of an array: a negative start counts from the end, and both
  directions are clamped to the array.
\<close>

definition slice :: "int \<Rightarrow> 'a list \<Rightarrow> 'a list" where
  "slice start xs =
     (let len = int (length xs);
          k = (if start < 0 then max (len + start) 0 else min start len)
      in drop (nat k) xs)"

text \<open>The decimal text of a natural number, as a template literal prints a status.\<close>

definition digit :: "nat \<Rightarrow> char" where
  "digit d = ''0123456789'' ! d"

fun decimal :: "nat \<Rightarrow> string" where
  "decimal n = (if n < 10 then [digit n] else decimal (n div 10) @ [digit (n mod 10)])"

declare decimal.simps [simp del]

subsection \<open>Parsed payloads\<close>

text \<open>
  The values \<^verbatim>\<open>JSON.parse\<close> returns. Of a number the handler observes only whether it
  is zero (\<^verbatim>\<open>ToBoolean\<close>) and its text (\<^verbatim>\<open>ToString\<close>), so a number is that pair: the
  flag is \<open>True\<close> for a number other than zero.
\<close>

datatype json =
    JNull
  | JBool bool
  | JNum bool string
  | JStr string
  | JArr "json list"
  | JObj "(string \<times> json) list"

text \<open>
  \<^verbatim>\<open>JSON.parse\<close> itself is a parameter of the handler's model: \<open>None\<close> is a thrown
  \<^verbatim>\<open>SyntaxError\<close>.
\<close>

type_synonym parser = "string \<Rightarrow> json option"

text \<open>
  Reading the property \<open>k\<close> of a value other than \<^verbatim>\<open>null\<close>, for the three names the
  handler reads (\<^verbatim>\<open>error\<close>, \<^verbatim>\<open>chunk\<close>, \<^verbatim>\<open>done\<close>), which no prototype defines:
  \<open>None\<close> is \<^verbatim>\<open>undefined\<close>. Of a repeated member the last one counts.
\<close>

fun getProp :: "json \<Rightarrow> string \<Rightarrow> json option" where
  "getProp (JObj ms) k = map_of (rev ms) k"
| "getProp _ k = None"

text \<open>\<^verbatim>\<open>ToBoolean\<close>, as a condition evaluates a value.\<close>

fun truthy :: "json option \<Rightarrow> bool" where
  "truthy None = False"
| "truthy (Some JNull) = False"
| "truthy (Some (JBool b)) = b"
| "truthy (Some (JNum nz t)) = nz"
| "truthy (Some (JStr s)) = (s \<noteq> [])"
| "truthy (Some (JArr xs)) = True"
| "truthy (Some (JObj ms)) = True"

text \<open>
  \<^verbatim>\<open>ToString\<close>, as \<^verbatim>\<open>+=\<close> on a string and \<^verbatim>\<open>new Error(v)\<close> convert a value; \<open>None\<close>
  is a thrown \<^verbatim>\<open>TypeError\<close>. An object is converted by the methods \<^verbatim>\<open>valueOf\<close> and
  \<^verbatim>\<open>toString\<close>. A member of a parsed object is never callable, so an own member
  \<^verbatim>\<open>valueOf\<close> is passed over, and the inherited \<^verbatim>\<open>valueOf\<close> returns the object itself,
  which is no primitive: the conversion rests on \<^verbatim>\<open>toString\<close>. The inherited one
  answers \<^verbatim>\<open>[object Object]\<close>; an own member of that name hides it and leaves no
  method, which throws. An array joins the conversions of its elements with commas,
  \<^verbatim>\<open>null\<close> elements printing as nothing, and throws when an element does.
\<close>

fun joinComma :: "string list \<Rightarrow> string" where
  "joinComma [] = []"
| "joinComma [s] = s"
| "joinComma (s # t # ts) = s @ '','' @ joinComma (t # ts)"

fun toString :: "json \<Rightarrow> string option" where
  "toString JNull = Some ''null''"
| "toString (JBool b) = Some (if b then ''true'' else ''false'')"
| "toString (JNum nz t) = Some t"
| "toString (JStr s) = Some s"
| "toString (JArr xs) =
     map_option joinComma (those (map (\<lambda>x. if x = JNull then Some [] else toString x) xs))"
| "toString (JObj ms) =
     (if ''toString'' \<in> fst ` set ms then None else Some ''[object Object]'')"

text \<open>The same for a value that may be \<^verbatim>\<open>undefined\<close>.\<close>

definition toStringU :: "json option \<Rightarrow> string option" where
  "toStringU v = (case v of None \<Rightarrow> Some ''undefined'' | Some x \<Rightarrow> toString x)"

subsection \<open>getConversationHistory\<close>

text \<open>
  \<^verbatim>\<open>messages.slice(-6).map(msg => ({ role: msg.role, content: msg.content }))\<close>.
  The function reads \<^verbatim>\<open>messages\<close>, the constant bound by the render in which it was
  created; it takes no argument and returns a new array.
\<close>

definition entry :: "message \<Rightarrow> conversationHistory" where
  "entry msg = \<lparr>role_h = role msg, content_h = content msg\<rparr>"

definition getConversationHistory :: "message list \<Rightarrow> conversationHistory list" where
  "getConversationHistory msgs = map entry (slice (- 6) msgs)"

subsection \<open>The platform seen by handleSendMessage\<close>

text \<open>
  One result of \<^verbatim>\<open>await reader.read()\<close>, with the value already passed through
  \<^verbatim>\<open>decoder.decode(value, { stream: true })\<close>: a piece of text, the end of the body
  (\<^verbatim>\<open>done\<close>), or a rejected promise. A reader is the sequence of the results of its
  successive calls; it may go on for ever.
\<close>

datatype read = Value string | Done | ReadRejects thrown

type_synonym reader = "nat \<Rightarrow> read"

text \<open>
  A \<^verbatim>\<open>Response\<close>: \<^verbatim>\<open>response.ok\<close> is true for a status from 200 to 299, and
  \<^verbatim>\<open>response.body\<close> may be \<^verbatim>\<open>null\<close>.
\<close>

record response =
  status :: nat
  statusText :: string
  body :: "reader option"

definition ok :: "response \<Rightarrow> bool" where
  "ok r \<longleftrightarrow> 200 \<le> status r \<and> status r \<le> 299"

datatype fetched = FetchRejects thrown | Resolves response

text \<open>
  The inputs of one call of the handler: the property \<^verbatim>\<open>apiUrl\<close>, the results of the
  two calls of \<^verbatim>\<open>generateId()\<close> and of \<^verbatim>\<open>new Date()\<close>, and \<^verbatim>\<open>fetch\<close>.
\<close>

record env =
  apiUrl :: string
  userId :: string
  userTime :: nat
  assistantMessageId :: string
  assistantTime :: nat
  fetch :: "request \<Rightarrow> fetched"

subsection \<open>One line of the stream\<close>

text \<open>
  The updater \<^verbatim>\<open>prev => prev.map(msg => msg.id === assistantMessageId ?
  { ...msg, content: assistantContent } : msg)\<close>. React runs it at the next render, by
  which time \<^verbatim>\<open>assistantContent\<close> may have grown; every growth queues a further
  updater, so the transcript after the last one is the same as if each had run at once.
\<close>

definition setContent :: "string \<Rightarrow> string \<Rightarrow> message list \<Rightarrow> message list" where
  "setContent mid c prev = map (\<lambda>msg. if id_m msg = mid then msg\<lparr>content := c\<rparr> else msg) prev"

definition console_warn :: "warning \<Rightarrow> world \<Rightarrow> world" where
  "console_warn x w = w\<lparr>warnings := warnings w @ [x]\<rparr>"

text \<open>
  The loop body goes on to the next line with the local \<^verbatim>\<open>assistantContent\<close> and the
  state, or the handler returns.
\<close>

datatype step = Continue string world | Returned world

text \<open>
  The body of \<^verbatim>\<open>for (const line of lines)\<close>. Whatever is thrown between
  \<^verbatim>\<open>try {\<close> and \<^verbatim>\<open>} catch (parseError)\<close> ends in \<^verbatim>\<open>console.warn\<close>, and the loop
  goes on with nothing changed: the \<^verbatim>\<open>SyntaxError\<close> of \<^verbatim>\<open>JSON.parse\<close>, the
  \<^verbatim>\<open>TypeError\<close> of \<^verbatim>\<open>data.error\<close> when \<^verbatim>\<open>data\<close> is \<^verbatim>\<open>null\<close>, the
  \<^verbatim>\<open>throw new Error(data.error)\<close> of the handler itself, and the \<^verbatim>\<open>TypeError\<close> of a
  value that has no conversion to a string, in \<^verbatim>\<open>new Error(data.error)\<close> and in
  \<^verbatim>\<open>assistantContent += data.chunk\<close> (the assignment does not take place then). The
  second and the third \<^verbatim>\<open>if\<close> of the source exclude each other, the second asking
  for \<^verbatim>\<open>!data.done\<close>, so they are branches of one chain here.
\<close>

definition processLine :: "parser \<Rightarrow> string \<Rightarrow> string \<Rightarrow> string \<Rightarrow> world \<Rightarrow> step" where
  "processLine parse aid line assistantContent w =
     (if startsWith ''data: '' line then
        (case parse (slice_s 6 line) of
           None \<Rightarrow> Continue assistantContent (console_warn SyntaxError w)
         | Some data \<Rightarrow>
             if data = JNull then Continue assistantContent (console_warn TypeError w)
             else if truthy (getProp data ''error'') then
               (case toStringU (getProp data ''error'') of
                  None \<Rightarrow> Continue assistantContent (console_warn TypeError w)
                | Some m \<Rightarrow> Continue assistantContent (console_warn (PayloadError m) w))
             else if truthy (getProp data ''chunk'') \<and> \<not> truthy (getProp data ''done'') then
               (case toStringU (getProp data ''chunk'') of
                  None \<Rightarrow> Continue assistantContent (console_warn TypeError w)
                | Some fragment \<Rightarrow>
                    Continue (assistantContent @ fragment)
                      (w\<lparr>messages := setContent aid (assistantContent @ fragment) (messages w)\<rparr>))
             else if truthy (getProp data ''done'') then Returned (w\<lparr>isStreaming := False\<rparr>)
             else Continue assistantContent w)
      else Continue assistantContent w)"

fun processLines :: "parser \<Rightarrow> string \<Rightarrow> string list \<Rightarrow> string \<Rightarrow> world \<Rightarrow> step" where
  "processLines parse aid [] assistantContent w = Continue assistantContent w"
| "processLines parse aid (line # lines) assistantContent w =
     (case processLine parse aid line assistantContent w of
        Returned w' \<Rightarrow> Returned w'
      | Continue assistantContent' w' \<Rightarrow> processLines parse aid lines assistantContent' w')"

subsection \<open>The read loop\<close>

text \<open>
  How the \<^verbatim>\<open>try\<close> block ends: normally (the loop was left by \<^verbatim>\<open>break\<close> or the
  handler returned), or with a value thrown to the outer \<^verbatim>\<open>catch\<close>.
\<close>

datatype outcome = Normal world | Throws thrown world

text \<open>
  \<^verbatim>\<open>while (true)\<close>, at the \<open>i\<close>-th call of \<^verbatim>\<open>reader.read()\<close>. The loop ends when the
  reader reports the end, when a read is rejected, or when a line returns; on a reader
  that does none of these it does not end, which is the value \<open>None\<close>.
\<close>

partial_function (option) readLoop ::
    "parser \<Rightarrow> string \<Rightarrow> reader \<Rightarrow> nat \<Rightarrow> string \<Rightarrow> world \<Rightarrow> outcome option" where
  "readLoop parse aid rd i assistantContent w =
     (case rd i of
        Done \<Rightarrow> Some (Normal w)
      | ReadRejects x \<Rightarrow> Some (Throws x w)
      | Value chunk \<Rightarrow>
          (case processLines parse aid (split_nl chunk) assistantContent w of
             Returned w' \<Rightarrow> Some (Normal w')
           | Continue assistantContent' w' \<Rightarrow>
               readLoop parse aid rd (Suc i) assistantContent' w'))"

subsection \<open>handleSendMessage\<close>

text \<open>
  The handler is the one created by the render of the state \<open>w\<close>: its free variables
  \<^verbatim>\<open>inputMessage\<close>, \<^verbatim>\<open>isLoading\<close>, \<^verbatim>\<open>isStreaming\<close> and \<^verbatim>\<open>messages\<close> are the values
  of \<open>w\<close> for the whole call, whatever the setters have queued since; a setter changes
  the state that the next render will see.
\<close>

definition userMessage :: "env \<Rightarrow> world \<Rightarrow> message" where
  "userMessage e w =
     \<lparr>id_m = userId e, content = trim (inputMessage w), role = User, timestamp = userTime e\<rparr>"

definition assistantMessage :: "env \<Rightarrow> message" where
  "assistantMessage e =
     \<lparr>id_m = assistantMessageId e, content = [], role = Assistant, timestamp = assistantTime e\<rparr>"

text \<open>The five setter calls between the guard and \<^verbatim>\<open>try\<close>.\<close>

definition beforeFetch :: "env \<Rightarrow> world \<Rightarrow> world" where
  "beforeFetch e w =
     w\<lparr>messages := messages w @ [userMessage e w],
       inputMessage := [],
       isLoading := True,
       isStreaming := True,
       error := None\<rparr>"

text \<open>
  The argument of \<^verbatim>\<open>fetch\<close>. \<^verbatim>\<open>getConversationHistory()\<close> reads \<^verbatim>\<open>messages\<close> of the
  render \<open>w\<close>, to which \<^verbatim>\<open>setMessages\<close> has added nothing.
\<close>

definition theRequest :: "env \<Rightarrow> world \<Rightarrow> request" where
  "theRequest e w =
     \<lparr>url = apiUrl e @ ''/stream'',
      message = content (userMessage e w),
      conversation_history = getConversationHistory (messages w)\<rparr>"

definition callFetch :: "request \<Rightarrow> world \<Rightarrow> world" where
  "callFetch req w1 = w1\<lparr>requests := requests w1 @ [req]\<rparr>"

text \<open>The rest of the \<^verbatim>\<open>try\<close> block, from the settled promise of \<^verbatim>\<open>fetch\<close> on.\<close>

definition afterFetch :: "parser \<Rightarrow> env \<Rightarrow> fetched \<Rightarrow> world \<Rightarrow> outcome option" where
  "afterFetch parse e f w2 =
     (case f of
        FetchRejects x \<Rightarrow> Some (Throws x w2)
      | Resolves resp \<Rightarrow>
          if \<not> ok resp then
            Some (Throws (ErrorObject
              (''HTTP '' @ decimal (status resp) @ '': '' @ statusText resp)) w2)
          else
            let w3 = w2\<lparr>messages := messages w2 @ [assistantMessage e], isLoading := False\<rparr>
            in (case body resp of
                  None \<Rightarrow>
                    Some (Throws (ErrorObject ''No se pudo leer la respuesta del servidor'') w3)
                | Some rd \<Rightarrow> readLoop parse (assistantMessageId e) rd 0 [] w3))"

text \<open>\<^verbatim>\<open>catch (error) { setError(...); setIsLoading(false); setIsStreaming(false); }\<close>\<close>

definition catchError :: "thrown \<Rightarrow> world \<Rightarrow> world" where
  "catchError x w =
     w\<lparr>error := Some (case x of ErrorObject m \<Rightarrow> m | OtherValue \<Rightarrow> ''Error desconocido''),
       isLoading := False,
       isStreaming := False\<rparr>"

text \<open>
  \<^verbatim>\<open>try { ... } catch (error) { ... }\<close> around the block: a block that ends normally
  leaves its state, a thrown value goes through the \<^verbatim>\<open>catch\<close> clause, and a block that
  does not end gives no state.
\<close>

fun tryCatch :: "outcome option \<Rightarrow> world option" where
  "tryCatch None = None"
| "tryCatch (Some (Normal w)) = Some w"
| "tryCatch (Some (Throws x w)) = Some (catchError x w)"

text \<open>
  The handler: the guard, the setter calls, the call of \<^verbatim>\<open>fetch\<close> (which runs before
  the handler first suspends), and the \<^verbatim>\<open>try\<close> block with its \<^verbatim>\<open>catch\<close>.
\<close>

definition handleSendMessage :: "parser \<Rightarrow> env \<Rightarrow> world \<Rightarrow> world option" where
  "handleSendMessage parse e w =
     (if trim (inputMessage w) = [] \<or> isLoading w \<or> isStreaming w then Some w
      else tryCatch (afterFetch parse e (fetch e (theRequest e w))
                      (callFetch (theRequest e w) (beforeFetch e w))))"

subsection \<open>The session state of the specification\<close>

text \<open>
  The specification speaks of one state with four values. In the component it is read
  off the flags: a request is awaited while \<^verbatim>\<open>isLoading\<close> is set, a reply is streamed
  while only \<^verbatim>\<open>isStreaming\<close> is set, and with both flags down the session shows an
  error or is idle.
\<close>

datatype sessionState = Idle | AwaitingResponse | StreamingAssistantReply | ErrorState

definition sessionStateOf :: "world \<Rightarrow> sessionState" where
  "sessionStateOf w =
     (if isLoading w then AwaitingResponse
      else if isStreaming w then StreamingAssistantReply
      else if error w \<noteq> None then ErrorState
      else Idle)"

subsection \<open>A parser for the examples\<close>

text \<open>
  The theorems about the handler hold for every parser. The closed examples need one, and
  \<open>JSON_parse\<close> is a recursive-descent reading of the JSON grammar for them: white space,
  the three literals, strings with the two-character escapes, whole numbers, arrays and
  objects. It answers \<open>None\<close> on every text that is not JSON; it also answers \<open>None\<close>,
  where \<^verbatim>\<open>JSON.parse\<close> would not, on numbers with a fraction, an exponent or more than
  15 digits and on \<^verbatim>\<open>\u\<close> escapes, whose values need floating point or wider characters.
  The first argument of the three mutually recursive functions bounds the depth of their
  calls; of any two nested calls one consumes a character, so twice the length of the
  text is enough.
\<close>

definition jsonSpace :: "char \<Rightarrow> bool" where
  "jsonSpace c \<longleftrightarrow> c \<in> {CHR 0x20, CHR 0x09, CHR 0x0A, CHR 0x0D}"

definition skipSpace :: "string \<Rightarrow> string" where
  "skipSpace s = dropWhile jsonSpace s"

definition escapes :: "(char \<times> char) list" where
  "escapes = [(CHR 0x22, CHR 0x22), (CHR 0x5C, CHR 0x5C), (CHR ''/'', CHR ''/''),
     (CHR ''b'', CHR 0x08), (CHR ''f'', CHR 0x0C), (CHR ''n'', CHR 0x0A),
     (CHR ''r'', CHR 0x0D), (CHR ''t'', CHR 0x09)]"

fun parseString :: "string \<Rightarrow> (string \<times> string) option" where
  "parseString [] = None"
| "parseString (c # cs) =
     (if c = CHR 0x22 then Some ([], cs)
      else if c = CHR 0x5C then
        (case cs of
           [] \<Rightarrow> None
         | x # cs' \<Rightarrow>
             (case map_of escapes x of
                None \<Rightarrow> None
              | Some y \<Rightarrow> map_option (\<lambda>(s, r). (y # s, r)) (parseString cs')))
      else if (of_char c :: nat) < 0x20 then None
      else map_option (\<lambda>(s, r). (c # s, r)) (parseString cs))"

definition isDigit :: "char \<Rightarrow> bool" where
  "isDigit c \<longleftrightarrow> c \<in> set ''0123456789''"

definition parseNumber :: "string \<Rightarrow> (json \<times> string) option" where
  "parseNumber s =
     (let neg = (take 1 s = ''-'');
          t = (if neg then drop 1 s else s);
          ds = takeWhile isDigit t;
          r = dropWhile isDigit t;
          nz = (\<exists>d \<in> set ds. d \<noteq> CHR ''0'')
      in if ds = [] \<or> (1 < length ds \<and> take 1 ds = ''0'') \<or> 15 < length ds
            \<or> take 1 r = ''.'' \<or> take 1 r = ''e'' \<or> take 1 r = ''E''
         then None
         else Some (JNum nz ((if neg \<and> nz then ''-'' else []) @ ds), r))"

fun parseValue :: "nat \<Rightarrow> string \<Rightarrow> (json \<times> string) option"
  and parseElements :: "nat \<Rightarrow> string \<Rightarrow> (json list \<times> string) option"
  and parseMembers :: "nat \<Rightarrow> string \<Rightarrow> ((string \<times> json) list \<times> string) option" where
  "parseValue 0 s = None"
| "parseValue (Suc n) s =
     (case skipSpace s of
        [] \<Rightarrow> None
      | c # r \<Rightarrow>
          if c = CHR 0x22 then map_option (\<lambda>(t, r'). (JStr t, r')) (parseString r)
          else if c = CHR ''{'' then
            (case skipSpace r of
               [] \<Rightarrow> None
             | d # r' \<Rightarrow>
                 if d = CHR ''}'' then Some (JObj [], r')
                 else map_option (\<lambda>(ms, r''). (JObj ms, r'')) (parseMembers n (d # r')))
          else if c = CHR ''['' then
            (case skipSpace r of
               [] \<Rightarrow> None
             | d # r' \<Rightarrow>
                 if d = CHR '']'' then Some (JArr [], r')
                 else map_option (\<lambda>(xs, r''). (JArr xs, r'')) (parseElements n (d # r')))
          else if c = CHR ''-'' \<or> isDigit c then parseNumber (c # r)
          else if take 4 (c # r) = ''true'' then Some (JBool True, drop 3 r)
          else if take 5 (c # r) = ''false'' then Some (JBool False, drop 4 r)
          else if take 4 (c # r) = ''null'' then Some (JNull, drop 3 r)
          else None)"
| "parseElements 0 s = None"
| "parseElements (Suc n) s =
     (case parseValue n s of
        None \<Rightarrow> None
      | Some (v, r) \<Rightarrow>
          (case skipSpace r of
             [] \<Rightarrow> None
           | c # r' \<Rightarrow>
               if c = CHR '']'' then Some ([v], r')
               else if c = CHR '','' then map_option (\<lambda>(vs, r''). (v # vs, r'')) (parseElements n r')
               else None))"
| "parseMembers 0 s = None"
| "parseMembers (Suc n) s =
     (case skipSpace s of
        [] \<Rightarrow> None
      | q # r \<Rightarrow>
          if q \<noteq> CHR 0x22 then None
          else
            (case parseString r of
               None \<Rightarrow> None
             | Some (k, r1) \<Rightarrow>
                 (case skipSpace r1 of
                    [] \<Rightarrow> None
                  | c # r2 \<Rightarrow>
                      if c \<noteq> CHR '':'' then None
                      else
                        (case parseValue n r2 of
                           None \<Rightarrow> None
                         | Some (v, r3) \<Rightarrow>
                             (case skipSpace r3 of
                                [] \<Rightarrow> None
                              | d # r4 \<Rightarrow>
                                  if d = CHR ''}'' then Some ([(k, v)], r4)
                                  else if d = CHR '','' then
                                    map_option (\<lambda>(ms, r5). ((k, v) # ms, r5)) (parseMembers n r4)
                                  else None)))))"

definition JSON_parse :: parser where
  "JSON_parse text =
     (case parseValue (Suc (length text + length text)) text of
        None \<Rightarrow> None
      | Some (v, r) \<Rightarrow> if skipSpace r = [] then Some v else None)"

subsection \<open>Readers and lines, for stating the properties\<close>

text \<open>A reader that delivers the given results and then reports the end for ever.\<close>

definition readerOf :: "read list \<Rightarrow> reader" where
  "readerOf rs i = (if i < length rs then rs ! i else Done)"

text \<open>The payload a line carries: the parse of what follows the prefix, if there is one.\<close>

definition dataOf :: "parser \<Rightarrow> string \<Rightarrow> json option" where
  "dataOf parse line = (if startsWith ''data: '' line then parse (slice_s 6 line) else None)"

text \<open>
  The three kinds of payload of the wire protocol, as the conditions of the handler
  tell them apart: an error, a fragment to append, the completion signal. A fragment is
  a chunk that counts as true and has a conversion to a string, as every chunk that is a
  string has.
\<close>

definition errorPayload :: "json \<Rightarrow> bool" where
  "errorPayload d \<longleftrightarrow> d \<noteq> JNull \<and> truthy (getProp d ''error'')"

definition chunkPayload :: "json \<Rightarrow> bool" where
  "chunkPayload d \<longleftrightarrow>
     d \<noteq> JNull \<and> \<not> truthy (getProp d ''error'') \<and> truthy (getProp d ''chunk'')
       \<and> \<not> truthy (getProp d ''done'') \<and> toStringU (getProp d ''chunk'') \<noteq> None"

definition donePayload :: "json \<Rightarrow> bool" where
  "donePayload d \<longleftrightarrow> d \<noteq> JNull \<and> \<not> truthy (getProp d ''error'') \<and> truthy (getProp d ''done'')"

definition chunkLine :: "parser \<Rightarrow> string \<Rightarrow> bool" where
  "chunkLine parse line = (case dataOf parse line of None \<Rightarrow> False | Some d \<Rightarrow> chunkPayload d)"

definition doneLine :: "parser \<Rightarrow> string \<Rightarrow> bool" where
  "doneLine parse line = (case dataOf parse line of None \<Rightarrow> False | Some d \<Rightarrow> donePayload d)"

text \<open>The fragment a line contributes, and the fragments of a run of lines in order.\<close>

definition fragmentOf :: "parser \<Rightarrow> string \<Rightarrow> string" where
  "fragmentOf parse line =
     (case dataOf parse line of
        None \<Rightarrow> []
      | Some d \<Rightarrow>
          if chunkPayload d
          then (case toStringU (getProp d ''chunk'') of None \<Rightarrow> [] | Some s \<Rightarrow> s)
          else [])"

definition fragments :: "parser \<Rightarrow> string list \<Rightarrow> string" where
  "fragments parse lines = concat (map (fragmentOf parse) lines)"

text \<open>A step with the log of warnings left out, to compare two runs up to that log.\<close>

fun unwarned :: "step \<Rightarrow> step" where
  "unwarned (Continue c w) = Continue c (w\<lparr>warnings := []\<rparr>)"
| "unwarned (Returned w) = Returned (w\<lparr>warnings := []\<rparr>)"

text \<open>
  The read loop on a reader that delivers finitely many results: the same loop as a total
  function of the list, used to evaluate the examples.
\<close>

fun runReads :: "parser \<Rightarrow> string \<Rightarrow> read list \<Rightarrow> string \<Rightarrow> world \<Rightarrow> outcome" where
  "runReads parse aid [] c w = Normal w"
| "runReads parse aid (Done # rs) c w = Normal w"
| "runReads parse aid (ReadRejects x # rs) c w = Throws x w"
| "runReads parse aid (Value chunk # rs) c w =
     (case processLines parse aid (split_nl chunk) c w of
        Returned w' \<Rightarrow> Normal w'
      | Continue c' w' \<Rightarrow> runReads parse aid rs c' w')"

text \<open>The reader delivers the given pieces of text at its calls \<open>i\<close>, \<open>i + 1\<close>, ...\<close>

fun delivers :: "reader \<Rightarrow> nat \<Rightarrow> string list \<Rightarrow> bool" where
  "delivers rd i [] = True"
| "delivers rd i (chunk # chunks) = (rd i = Value chunk \<and> delivers rd (Suc i) chunks)"

text \<open>The state in which a block ended.\<close>

fun worldOf :: "outcome \<Rightarrow> world" where
  "worldOf (Normal w) = w"
| "worldOf (Throws x w) = w"

fun stepWorld :: "step \<Rightarrow> world" where
  "stepWorld (Continue c w) = w"
| "stepWorld (Returned w) = w"

text \<open>
  What the read loop never touches: the requests, the input, the loading flag, the error,
  and of each message everything but its content.
\<close>

definition sameFrame :: "world \<Rightarrow> world \<Rightarrow> bool" where
  "sameFrame w w' \<longleftrightarrow>
     requests w' = requests w \<and> inputMessage w' = inputMessage w \<and> isLoading w' = isLoading w
       \<and> error w' = error w
       \<and> map (\<lambda>m. (id_m m, role m, timestamp m)) (messages w')
           = map (\<lambda>m. (id_m m, role m, timestamp m)) (messages w)"

subsection \<open>Example inputs\<close>

definition greeting :: message where
  "greeting = \<lparr>id_m = ''1'', content = ''Hola'', role = Assistant, timestamp = 0\<rparr>"

definition question :: message where
  "question = \<lparr>id_m = ''2'', content = ''Why?'', role = User, timestamp = 5\<rparr>"

text \<open>An idle session with one message and a text typed in.\<close>

definition exWorld :: world where
  "exWorld =
     \<lparr>messages = [greeting], inputMessage = '' hi '', isLoading = False, isStreaming = False,
      error = None, requests = [], warnings = []\<rparr>"

definition exEnv :: "fetched \<Rightarrow> env" where
  "exEnv f =
     \<lparr>apiUrl = ''http://api'', userId = ''u1'', userTime = 1000,
      assistantMessageId = ''a1'', assistantTime = 1001, fetch = (\<lambda>req. f)\<rparr>"

text \<open>A response with status 200 whose body delivers the given results.\<close>

definition streamOf :: "read list \<Rightarrow> fetched" where
  "streamOf rs = Resolves \<lparr>status = 200, statusText = ''OK'', body = Some (readerOf rs)\<rparr>"

text \<open>The streams of the examples, one read per line unless said otherwise.\<close>

definition helloStream :: "read list" where
  \<open>helloStream =
     [Value ''data: {"chunk":"Hel"}\<newline>'',
      Value ''data: {"chunk":"lo"}\<newline>'',
      Value ''data: {"done":true}\<newline>'']\<close>

definition partialStream :: "read list" where
  \<open>partialStream = [Value ''data: {"chunk":"partial"}\<newline>'', Done]\<close>

definition boomStream :: "read list" where
  \<open>boomStream =
     [Value ''data: {"error":"boom"}\<newline>'',
      Value ''data: {"chunk":"late"}\<newline>'',
      Value ''data: {"done":true}\<newline>'']\<close>

definition boomOnlyStream :: "read list" where
  \<open>boomOnlyStream = [Value ''data: {"error":"boom"}\<newline>'', Done]\<close>

text \<open>A malformed line between two fragments, all in one read.\<close>

definition interleavedStream :: "read list" where
  \<open>interleavedStream =
     [Value ''data: {"chunk":"Hel"}\<newline>data: {not valid json}\<newline>data: {"chunk":"lo"}\<newline>'',
      Value ''data: {"done":true}\<newline>'']\<close>

text \<open>A line cut inside its payload, and a line cut before its trailing blank.\<close>

definition cutStream :: "read list" where
  \<open>cutStream =
     [Value ''data: {"chu'',
      Value ''nk":"Hel"}\<newline>data: {"done":true}\<newline>'']\<close>

definition cutAfterPayloadStream :: "read list" where
  \<open>cutAfterPayloadStream =
     [Value ''data: {"chunk":"a"}'',
      Value '' \<newline>data: {"done":true}\<newline>'']\<close>

text \<open>
  The Hello stream with its three lines in one read, followed in that read by a further
  fragment and then by a further read.
\<close>

definition helloOneReadStream :: "read list" where
  \<open>helloOneReadStream =
     [Value ''data: {"chunk":"Hel"}\<newline>data: {"chunk":"lo"}\<newline>data: {"done":true}\<newline>data: {"chunk":"late"}\<newline>'',
      Value ''data: {"chunk":"more"}\<newline>'']\<close>

text \<open>A chunk that is an object with a member named \<^verbatim>\<open>toString\<close>, then a fragment.\<close>

definition ownToStringStream :: "read list" where
  \<open>ownToStringStream =
     [Value ''data: {"chunk":{"toString":1}}\<newline>'',
      Value ''data: {"chunk":"lo"}\<newline>'',
      Value ''data: {"done":true}\<newline>'']\<close>

text \<open>The state in which an accepted call of the examples starts its \<^verbatim>\<open>try\<close> block.\<close>

definition sentWorld :: world where
  "sentWorld =
     \<lparr>messages = [greeting, \<lparr>id_m = ''u1'', content = ''hi'', role = User, timestamp = 1000\<rparr>],
      inputMessage = [], isLoading = True, isStreaming = True, error = None,
      requests = [\<lparr>url = ''http://api/stream'', message = ''hi'',
                   conversation_history = [\<lparr>role_h = Assistant, content_h = ''Hola''\<rparr>]\<rparr>],
      warnings = []\<rparr>"

text \<open>The state after a reply with the given content, flag and warnings.\<close>

definition repliedWorld :: "string \<Rightarrow> bool \<Rightarrow> warning list \<Rightarrow> world" where
  "repliedWorld reply streaming ws =
     sentWorld\<lparr>messages := messages sentWorld
                  @ [\<lparr>id_m = ''a1'', content = reply, role = Assistant, timestamp = 1001\<rparr>],
               isLoading := False, isStreaming := streaming, warnings := ws\<rparr>"

section \<open>Properties of one line, of a run of lines and of the read loop\<close>

lemma split_nl_nonempty: "split_nl s \<noteq> []"
  by (induction s) (auto split: list.splits)

lemma processLine_unfold:
  "processLine parse aid line c w =
     (case dataOf parse line of
        None \<Rightarrow> if startsWith ''data: '' line then Continue c (console_warn SyntaxError w)
                 else Continue c w
      | Some d \<Rightarrow>
          if d = JNull then Continue c (console_warn TypeError w)
          else if errorPayload d then
            Continue c
              (console_warn
                 (case toStringU (getProp d ''error'') of
                    None \<Rightarrow> TypeError
                  | Some m \<Rightarrow> PayloadError m) w)
          else if donePayload d then Returned (w\<lparr>isStreaming := False\<rparr>)
          else if chunkPayload d then
            Continue (c @ fragmentOf parse line)
              (w\<lparr>messages := setContent aid (c @ fragmentOf parse line) (messages w)\<rparr>)
          else if truthy (getProp d ''chunk'') then Continue c (console_warn TypeError w)
          else Continue c w)"
  by (simp add: processLine_def dataOf_def errorPayload_def donePayload_def chunkPayload_def
        fragmentOf_def split: option.splits)

lemma chunkPayload_excl:
  "chunkPayload d \<Longrightarrow> d \<noteq> JNull \<and> \<not> errorPayload d \<and> \<not> donePayload d"
  by (simp add: chunkPayload_def errorPayload_def donePayload_def)

lemma donePayload_excl:
  "donePayload d \<Longrightarrow> d \<noteq> JNull \<and> \<not> errorPayload d"
  by (simp add: errorPayload_def donePayload_def)

lemma processLine_chunk:
  assumes "chunkLine parse line"
  shows "processLine parse aid line c w =
     Continue (c @ fragmentOf parse line)
       (w\<lparr>messages := setContent aid (c @ fragmentOf parse line) (messages w)\<rparr>)"
proof -
  from assms obtain d where d: "dataOf parse line = Some d" "chunkPayload d"
    by (cases "dataOf parse line") (simp_all add: chunkLine_def)
  from chunkPayload_excl[OF d(2)] d show ?thesis
    by (simp add: processLine_unfold)
qed

lemma processLine_done:
  assumes "doneLine parse line"
  shows "processLine parse aid line c w = Returned (w\<lparr>isStreaming := False\<rparr>)"
proof -
  from assms obtain d where d: "dataOf parse line = Some d" "donePayload d"
    by (cases "dataOf parse line") (simp_all add: doneLine_def)
  from donePayload_excl[OF d(2)] d show ?thesis
    by (simp add: processLine_unfold)
qed

lemma world_no_warning: "w = w\<lparr>warnings := warnings w @ []\<rparr>"
  by simp

lemma processLine_other:
  assumes "\<not> chunkLine parse line" and "\<not> doneLine parse line"
  shows "\<exists>ws. processLine parse aid line c w = Continue c (w\<lparr>warnings := warnings w @ ws\<rparr>)"
proof (cases "dataOf parse line")
  case None
  show ?thesis
  proof (cases "startsWith ''data: '' line")
    case True
    with None have "processLine parse aid line c w = Continue c (w\<lparr>warnings := warnings w @ [SyntaxError]\<rparr>)"
      by (simp add: processLine_unfold console_warn_def)
    then show ?thesis by blast
  next
    case False
    with None have "processLine parse aid line c w = Continue c (w\<lparr>warnings := warnings w @ []\<rparr>)"
      by (simp add: processLine_unfold)
    then show ?thesis by blast
  qed
next
  case (Some d)
  with assms have nc: "\<not> chunkPayload d" and nd: "\<not> donePayload d"
    by (simp_all add: chunkLine_def doneLine_def)
  show ?thesis
  proof (cases "d = JNull")
    case True
    with Some have "processLine parse aid line c w = Continue c (w\<lparr>warnings := warnings w @ [TypeError]\<rparr>)"
      by (simp add: processLine_unfold console_warn_def)
    then show ?thesis by blast
  next
    case notnull: False
    show ?thesis
    proof (cases "errorPayload d")
      case True
      with Some notnull have "processLine parse aid line c w =
          Continue c (w\<lparr>warnings := warnings w @
            [case toStringU (getProp d ''error'') of None \<Rightarrow> TypeError | Some m \<Rightarrow> PayloadError m]\<rparr>)"
        by (simp add: processLine_unfold console_warn_def)
      then show ?thesis by blast
    next
      case noerr: False
      show ?thesis
      proof (cases "truthy (getProp d ''chunk'')")
        case True
        with Some nc nd notnull noerr
        have "processLine parse aid line c w = Continue c (w\<lparr>warnings := warnings w @ [TypeError]\<rparr>)"
          by (simp add: processLine_unfold console_warn_def)
        then show ?thesis by blast
      next
        case False
        with Some nc nd notnull noerr
        have "processLine parse aid line c w = Continue c (w\<lparr>warnings := warnings w @ []\<rparr>)"
          by (simp add: processLine_unfold)
        then show ?thesis by blast
      qed
    qed
  qed
qed

lemma fragmentOf_not_chunk: "\<not> chunkLine parse line \<Longrightarrow> fragmentOf parse line = []"
  by (auto simp: fragmentOf_def chunkLine_def split: option.splits)

lemma fragments_no_chunk:
  "\<forall>x \<in> set ls. \<not> chunkLine parse x \<Longrightarrow> concat (map (fragmentOf parse) ls) = []"
  by (induction ls) (simp_all add: fragmentOf_not_chunk)

lemma processLines_append:
  "processLines parse aid (xs @ ys) c w =
     (case processLines parse aid xs c w of
        Returned w' \<Rightarrow> Returned w'
      | Continue c' w' \<Rightarrow> processLines parse aid ys c' w')"
  by (induction xs arbitrary: c w) (auto split: step.splits)

lemma setContent_twice: "setContent aid c2 (setContent aid c1 ms) = setContent aid c2 ms"
  by (induction ms) (auto simp: setContent_def)

lemma processLines_no_done:
  "\<forall>l \<in> set ls. \<not> doneLine parse l \<Longrightarrow>
   \<exists>ws. processLines parse aid ls c w =
     Continue (c @ fragments parse ls)
       (w\<lparr>messages := (if \<exists>l \<in> set ls. chunkLine parse l
                        then setContent aid (c @ fragments parse ls) (messages w)
                        else messages w),
          warnings := warnings w @ ws\<rparr>)"
proof (induction ls arbitrary: c w)
  case Nil
  show ?case by (intro exI[of _ "[]"]) (simp add: fragments_def)
next
  case (Cons l ls)
  then have nd: "\<forall>l \<in> set ls. \<not> doneLine parse l" and ndl: "\<not> doneLine parse l" by simp_all
  show ?case
  proof (cases "chunkLine parse l")
    case True
    let ?c = "c @ fragmentOf parse l"
    let ?w = "w\<lparr>messages := setContent aid ?c (messages w)\<rparr>"
    from Cons.IH[OF nd, of ?c ?w] obtain ws where
      "processLines parse aid ls ?c ?w =
         Continue (?c @ fragments parse ls)
           (?w\<lparr>messages := (if \<exists>l \<in> set ls. chunkLine parse l
                        then setContent aid (?c @ fragments parse ls) (messages ?w)
                        else messages ?w),
              warnings := warnings ?w @ ws\<rparr>)" by blast
    with True show ?thesis
      by (auto simp: processLine_chunk fragments_def setContent_twice fragments_no_chunk
            intro!: exI[of _ ws])
  next
    case False
    from processLine_other[OF False ndl, of aid c w] obtain ws1 where
      s1: "processLine parse aid l c w = Continue c (w\<lparr>warnings := warnings w @ ws1\<rparr>)" by blast
    let ?w = "w\<lparr>warnings := warnings w @ ws1\<rparr>"
    from Cons.IH[OF nd, of c ?w] obtain ws where
      "processLines parse aid ls c ?w =
         Continue (c @ fragments parse ls)
           (?w\<lparr>messages := (if \<exists>l \<in> set ls. chunkLine parse l
                        then setContent aid (c @ fragments parse ls) (messages ?w)
                        else messages ?w),
              warnings := warnings ?w @ ws\<rparr>)" by blast
    with False s1 show ?thesis
      by (auto simp: fragments_def fragmentOf_not_chunk intro!: exI[of _ "ws1 @ ws"])
  qed
qed

lemma readLoop_values:
  "delivers rd i cs \<Longrightarrow>
   readLoop parse aid rd i c w =
     (case processLines parse aid (concat (map split_nl cs)) c w of
        Returned w' \<Rightarrow> Some (Normal w')
      | Continue c' w' \<Rightarrow> readLoop parse aid rd (i + length cs) c' w')"
proof (induction cs arbitrary: i c w)
  case Nil
  show ?case by simp
next
  case (Cons x cs)
  then have hd: "rd i = Value x" and tl: "delivers rd (Suc i) cs" by simp_all
  show ?case
    by (subst readLoop.simps) (simp add: hd processLines_append Cons.IH[OF tl] split: step.splits)
qed

lemma readLoop_readerOf_drop:
  "readLoop parse aid (readerOf rs) i c w = Some (runReads parse aid (drop i rs) c w)"
proof (induction "drop i rs" arbitrary: i c w)
  case Nil
  then have "readerOf rs i = Done" by (simp add: readerOf_def)
  with Nil show ?case by (subst readLoop.simps) (simp flip: Nil.hyps)
next
  case (Cons r rest)
  from Cons.hyps(2) have lt: "i < length rs" by (cases "i < length rs") simp_all
  from Cons.hyps(2) Cons_nth_drop_Suc[OF lt] have "rs ! i # drop (Suc i) rs = r # rest"
    by simp
  then have r: "rs ! i = r" and rest: "rest = drop (Suc i) rs"
    by simp_all
  have rd: "readerOf rs i = r" using lt r by (simp add: readerOf_def)
  show ?case
    by (subst readLoop.simps, subst Cons.hyps(2)[symmetric])
       (cases r; simp add: rd Cons.hyps(1)[OF rest] rest split: step.splits)
qed

lemma readLoop_readerOf:
  "readLoop parse aid (readerOf rs) 0 c w = Some (runReads parse aid rs c w)"
  using readLoop_readerOf_drop[of parse aid rs 0 c w] by simp

lemma sameFrame_refl: "sameFrame w w"
  by (simp add: sameFrame_def)

lemma sameFrame_trans: "sameFrame a b \<Longrightarrow> sameFrame b c \<Longrightarrow> sameFrame a c"
  by (simp add: sameFrame_def)

lemma setContent_frame:
  "map (\<lambda>m. (id_m m, role m, timestamp m)) (setContent aid c ms)
     = map (\<lambda>m. (id_m m, role m, timestamp m)) ms"
  by (induction ms) (simp_all add: setContent_def)

lemma processLine_frame: "sameFrame w (stepWorld (processLine parse aid line c w))"
  by (simp add: processLine_unfold sameFrame_def console_warn_def setContent_frame
        split: option.splits)

lemma processLines_frame: "sameFrame w (stepWorld (processLines parse aid ls c w))"
proof (induction ls arbitrary: c w)
  case Nil
  show ?case by (simp add: sameFrame_refl)
next
  case (Cons l ls)
  show ?case
  proof (cases "processLine parse aid l c w")
    case (Continue c' w')
    with processLine_frame[of w parse aid l c] have "sameFrame w w'" by simp
    with Cons.IH[where c=c' and w=w'] Continue show ?thesis by (auto intro: sameFrame_trans)
  next
    case (Returned w')
    with processLine_frame[of w parse aid l c] show ?thesis by simp
  qed
qed

lemma readLoop_frame:
  assumes "readLoop parse aid rd i c w = Some out"
  shows "sameFrame w (worldOf out)"
  using assms
proof (induction rule: readLoop.raw_induct[rotated 1, consumes 1, case_names step])
  case (step f parse aid rd i c w out)
  show ?case
  proof (cases "rd i")
    case Done
    with step(2) show ?thesis by (auto simp: sameFrame_refl)
  next
    case (ReadRejects x)
    with step(2) show ?thesis by (auto simp: sameFrame_refl)
  next
    case (Value chunk)
    show ?thesis
    proof (cases "processLines parse aid (split_nl chunk) c w")
      case (Returned w')
      with Value step(2) processLines_frame[of w parse aid "split_nl chunk" c] show ?thesis by auto
    next
      case (Continue c' w')
      with Value step(2) have "f parse aid rd (Suc i) c' w' = Some out" by simp
      from step(1)[OF this] processLines_frame[of w parse aid "split_nl chunk" c] Continue
      show ?thesis by (auto intro: sameFrame_trans)
    qed
  qed
qed

section \<open>Evaluating the handler\<close>

lemma slice_last_six: "slice (- 6) xs = drop (length xs - 6) xs"
  by (simp add: slice_def Let_def max_def nat_diff_distrib')

lemma sessionState_in_flight:
  "sessionStateOf w = AwaitingResponse \<or> sessionStateOf w = StreamingAssistantReply
     \<longleftrightarrow> isLoading w \<or> isStreaming w"
  by (simp add: sessionStateOf_def)

lemmas example_defs =
  exWorld_def exEnv_def streamOf_def greeting_def question_def sentWorld_def repliedWorld_def

lemmas parser_defs =
  JSON_parse_def skipSpace_def jsonSpace_def escapes_def isDigit_def parseNumber_def

lemmas line_defs =
  processLine_def startsWith_def slice_s_def console_warn_def setContent_def toStringU_def
  Let_def

lemmas handler_defs =
  handleSendMessage_def afterFetch_def beforeFetch_def callFetch_def theRequest_def
  userMessage_def assistantMessage_def catchError_def getConversationHistory_def
  slice_last_six entry_def trim_def isWhiteSpace_def ok_def

lemma handleSendMessage_accepted:
  assumes "trim (inputMessage w) \<noteq> []" "\<not> isLoading w" "\<not> isStreaming w"
  shows "handleSendMessage parse e w =
           tryCatch (afterFetch parse e (fetch e (theRequest e w))
                      (callFetch (theRequest e w) (beforeFetch e w)))"
  using assms by (simp add: handleSendMessage_def)

lemma afterFetch_frame:
  assumes "afterFetch parse e f w2 = Some out"
  shows "requests (worldOf out) = requests w2
    \<and> (map (\<lambda>m. (id_m m, role m, timestamp m)) (messages (worldOf out)) = map (\<lambda>m. (id_m m, role m, timestamp m)) (messages w2)
       \<or> map (\<lambda>m. (id_m m, role m, timestamp m)) (messages (worldOf out))
           = map (\<lambda>m. (id_m m, role m, timestamp m)) (messages w2) @ [(assistantMessageId e, Assistant, assistantTime e)])"
proof (cases f)
  case (FetchRejects x)
  with assms show ?thesis by (auto simp: afterFetch_def)
next
  case (Resolves resp)
  show ?thesis
  proof (cases "ok resp")
    case False
    with Resolves assms show ?thesis by (auto simp: afterFetch_def)
  next
    case True
    let ?w3 = "w2\<lparr>messages := messages w2 @ [assistantMessage e], isLoading := False\<rparr>"
    show ?thesis
    proof (cases "body resp")
      case None
      with True Resolves assms show ?thesis
        by (auto simp: afterFetch_def assistantMessage_def)
    next
      case (Some rd)
      with True Resolves assms
      have "readLoop parse (assistantMessageId e) rd 0 [] ?w3 = Some out"
        by (simp add: afterFetch_def Let_def)
      from readLoop_frame[OF this]
      have fr: "requests (worldOf out) = requests ?w3"
        "map (\<lambda>m. (id_m m, role m, timestamp m)) (messages (worldOf out))
           = map (\<lambda>m. (id_m m, role m, timestamp m)) (messages ?w3)"
        by (simp_all add: sameFrame_def)
      then show ?thesis by (simp add: assistantMessage_def)
    qed
  qed
qed

lemma tryCatch_Some:
  "tryCatch r = Some w' \<Longrightarrow>
   \<exists>out. r = Some out \<and> requests w' = requests (worldOf out) \<and> messages w' = messages (worldOf out)"
  by (cases r rule: tryCatch.cases) (auto simp: catchError_def)

lemma submit_frame:
  assumes "trim (inputMessage w) \<noteq> []" and "\<not> isLoading w" and "\<not> isStreaming w"
    and "handleSendMessage parse e w = Some w'"
  shows "requests w' = requests w @ [theRequest e w]"
    and "\<exists>rest. map (\<lambda>m. (id_m m, role m, timestamp m)) (messages w')
                       = map (\<lambda>m. (id_m m, role m, timestamp m)) (messages w) @ (userId e, User, userTime e) # rest
                     \<and> (rest = [] \<or> rest = [(assistantMessageId e, Assistant, assistantTime e)])"
proof -
  from handleSendMessage_accepted[OF assms(1-3), of parse e] assms(4) obtain out where out:
    "afterFetch parse e (fetch e (theRequest e w)) (callFetch (theRequest e w) (beforeFetch e w)) = Some out"
    "requests w' = requests (worldOf out)" "messages w' = messages (worldOf out)"
    using tryCatch_Some by metis
  note fr = afterFetch_frame[OF out(1)]
  from fr out(2) show "requests w' = requests w @ [theRequest e w]"
    by (simp add: callFetch_def beforeFetch_def)
  from fr out(3)
  show "\<exists>rest. map (\<lambda>m. (id_m m, role m, timestamp m)) (messages w')
                       = map (\<lambda>m. (id_m m, role m, timestamp m)) (messages w) @ (userId e, User, userTime e) # rest
                     \<and> (rest = [] \<or> rest = [(assistantMessageId e, Assistant, assistantTime e)])"
    by (auto simp: callFetch_def beforeFetch_def userMessage_def)
qed

lemma hello_run:
  "handleSendMessage JSON_parse (exEnv (streamOf helloStream)) exWorld
     = Some (repliedWorld ''Hello'' False [])"
  by (simp add: helloStream_def example_defs handler_defs readLoop_readerOf parser_defs line_defs)

lemma last_setContent:
  "id_m m = aid \<Longrightarrow> last (setContent aid c (ms @ [m])) = m\<lparr>content := c\<rparr>"
  by (simp add: setContent_def)

lemma setContent_fresh:
  "aid \<notin> id_m ` set ms \<Longrightarrow> setContent aid c ms = ms"
  by (induction ms) (auto simp: setContent_def)

lemma length_setContent: "length (setContent aid c ms) = length ms"
  by (simp add: setContent_def)

lemma setContent_append:
  "setContent aid c (xs @ ys) = setContent aid c xs @ setContent aid c ys"
  by (simp add: setContent_def)

lemma setContent_single:
  "id_m m = aid \<Longrightarrow> setContent aid c [m] = [m\<lparr>content := c\<rparr>]"
  by (simp add: setContent_def)

lemma processLines_no_done_world:
  assumes "\<forall>l \<in> set ls. \<not> doneLine parse l"
  shows "\<exists>w'. processLines parse aid ls c w = Continue (c @ fragments parse ls) w'
     \<and> messages w' = (if \<exists>l \<in> set ls. chunkLine parse l
                        then setContent aid (c @ fragments parse ls) (messages w)
                        else messages w)
     \<and> isLoading w' = isLoading w \<and> isStreaming w' = isStreaming w \<and> error w' = error w
     \<and> requests w' = requests w \<and> inputMessage w' = inputMessage w"
proof -
  from processLines_no_done[OF assms, of aid c w] obtain ws where
    "processLines parse aid ls c w =
     Continue (c @ fragments parse ls)
       (w\<lparr>messages := (if \<exists>l \<in> set ls. chunkLine parse l
                        then setContent aid (c @ fragments parse ls) (messages w)
                        else messages w),
          warnings := warnings w @ ws\<rparr>)" by blast
  then show ?thesis by simp
qed

lemmas payload_defs =
  dataOf_def chunkLine_def doneLine_def chunkPayload_def donePayload_def errorPayload_def
  fragmentOf_def fragments_def startsWith_def slice_s_def toStringU_def

lemma processLine_unwarned:
  "unwarned (processLine parse aid l c (w\<lparr>warnings := x\<rparr>)) = unwarned (processLine parse aid l c w)"
  by (simp add: processLine_unfold console_warn_def split: option.splits)

lemma processLine_step_unwarned:
  assumes "w1\<lparr>warnings := []\<rparr> = w2\<lparr>warnings := []\<rparr>"
  shows "unwarned (processLine parse aid l c w1) = unwarned (processLine parse aid l c w2)"
proof -
  have "unwarned (processLine parse aid l c w1)
      = unwarned (processLine parse aid l c (w1\<lparr>warnings := []\<rparr>))"
    by (simp only: processLine_unwarned)
  also have "\<dots> = unwarned (processLine parse aid l c (w2\<lparr>warnings := []\<rparr>))"
    by (simp only: assms)
  also have "\<dots> = unwarned (processLine parse aid l c w2)"
    by (simp only: processLine_unwarned)
  finally show ?thesis .
qed

lemma processLines_step_unwarned:
  assumes "w1\<lparr>warnings := []\<rparr> = w2\<lparr>warnings := []\<rparr>"
  shows "unwarned (processLines parse aid ls c w1) = unwarned (processLines parse aid ls c w2)"
  using assms
proof (induction ls arbitrary: c w1 w2)
  case Nil
  then show ?case by simp
next
  case (Cons l ls)
  from processLine_step_unwarned[OF Cons.prems, of parse aid l c]
  have eq: "unwarned (processLine parse aid l c w1) = unwarned (processLine parse aid l c w2)" .
  show ?case
  proof (cases "processLine parse aid l c w1")
    case (Returned v1)
    with eq obtain v2 where "processLine parse aid l c w2 = Returned v2"
      "v1\<lparr>warnings := []\<rparr> = v2\<lparr>warnings := []\<rparr>"
      by (cases "processLine parse aid l c w2") simp_all
    with Returned show ?thesis by simp
  next
    case (Continue c1 v1)
    with eq obtain v2 where v2: "processLine parse aid l c w2 = Continue c1 v2"
      "v1\<lparr>warnings := []\<rparr> = v2\<lparr>warnings := []\<rparr>"
      by (cases "processLine parse aid l c w2") simp_all
    from Cons.IH[OF v2(2), of c1] Continue v2(1) show ?thesis by simp
  qed
qed

lemma no_data_skipped:
  assumes "dataOf parse line = None"
  shows "unwarned (processLines parse aid (line # ys) c w) = unwarned (processLines parse aid ys c w)"
proof -
  from assms have "\<not> chunkLine parse line" "\<not> doneLine parse line"
    by (simp_all add: chunkLine_def doneLine_def)
  from processLine_other[OF this, of aid c w] obtain ws where
    "processLine parse aid line c w = Continue c (w\<lparr>warnings := warnings w @ ws\<rparr>)" by blast
  then have "processLines parse aid (line # ys) c w
      = processLines parse aid ys c (w\<lparr>warnings := warnings w @ ws\<rparr>)" by simp
  moreover have "unwarned (processLines parse aid ys c (w\<lparr>warnings := warnings w @ ws\<rparr>))
      = unwarned (processLines parse aid ys c w)"
    by (rule processLines_step_unwarned) simp
  ultimately show ?thesis by simp
qed

lemma no_data_dropped:
  assumes "dataOf parse line = None"
  shows "unwarned (processLines parse aid (xs @ line # ys) c w)
       = unwarned (processLines parse aid (xs @ ys) c w)"
proof (cases "processLines parse aid xs c w")
  case (Returned v)
  then show ?thesis by (simp add: processLines_append)
next
  case (Continue c1 v)
  with no_data_skipped[OF assms, of aid ys c1 v] show ?thesis
    by (simp add: processLines_append)
qed

lemma interleaved_run:
  "handleSendMessage JSON_parse (exEnv (streamOf interleavedStream)) exWorld
     = Some (repliedWorld ''Hello'' False [SyntaxError])"
  by (simp add: interleavedStream_def example_defs handler_defs readLoop_readerOf parser_defs line_defs)

lemma cut_run:
  "handleSendMessage JSON_parse (exEnv (streamOf cutStream)) exWorld
     = Some (repliedWorld [] False [SyntaxError])"
  by (simp add: cutStream_def example_defs handler_defs readLoop_readerOf parser_defs line_defs)

lemma string_chunk_line:
  assumes "dataOf parse l = Some d" and "getProp d ''chunk'' = Some (JStr s)" and "s \<noteq> []"
    and "\<not> truthy (getProp d ''error'')" and "\<not> truthy (getProp d ''done'')"
  shows "chunkLine parse l \<and> fragmentOf parse l = s"
proof -
  from assms(2) have "d \<noteq> JNull" by auto
  with assms show ?thesis
    by (simp add: chunkLine_def fragmentOf_def chunkPayload_def toStringU_def)
qed

lemma chunk_without_conversion_warns:
  assumes "dataOf parse l = Some d" and "d \<noteq> JNull"
    and "\<not> truthy (getProp d ''error'')" and "truthy (getProp d ''chunk'')"
    and "\<not> truthy (getProp d ''done'')" and "toStringU (getProp d ''chunk'') = None"
  shows "processLine parse aid l c w = Continue c (console_warn TypeError w)"
  using assms
  by (simp add: processLine_unfold errorPayload_def donePayload_def chunkPayload_def)

lemma ownToString_run:
  "handleSendMessage JSON_parse (exEnv (streamOf ownToStringStream)) exWorld
     = Some (repliedWorld ''lo'' False [TypeError])"
  by (simp add: ownToStringStream_def example_defs handler_defs readLoop_readerOf parser_defs
        line_defs)

section \<open>The history sent to the server\<close>

text \<open>
  C6, as the code has it. \<^verbatim>\<open>getConversationHistory\<close> takes no limit: the number 6 is
  written into it. It returns the last six messages of the transcript (all of them when
  there are fewer), each reduced to its role and content, oldest first; of ten messages
  it returns exactly the last six in their order. It is a function of the transcript and
  returns a new list, so the transcript itself is not changed.
\<close>

theorem getConversationHistory_last_six:
  "getConversationHistory msgs = map entry (drop (length msgs - 6) msgs)
   \<and> length (getConversationHistory msgs) = min 6 (length msgs)
   \<and> getConversationHistory [a, b, c, d, m1, m2, m3, m4, m5, m6]
       = [entry m1, entry m2, entry m3, entry m4, entry m5, entry m6]"
  by (simp add: getConversationHistory_def slice_last_six)

text \<open>
  C6, as stated, asks for the last \<open>limit\<close> messages for every \<open>limit\<close>, and for the empty
  sequence when \<open>limit \<le> 0\<close>. On a transcript of two messages the only history the
  code computes has both of them: it is neither empty (limit 0) nor the last message
  alone (limit 1).
\<close>

theorem recentHistory_limit_counterexample:
  "getConversationHistory [greeting, question] \<noteq> []
   \<and> getConversationHistory [greeting, question] \<noteq> [entry question]"
  by (simp add: getConversationHistory_def slice_last_six)

text \<open>
  C1, as the code has it. For every call that passes the guard, the history of the
  request is taken from \<^verbatim>\<open>messages\<close> of the render that created the handler, that is
  from the transcript as it was before the user message was added: its last six
  messages at most, in order, reduced to role and content. The new text travels in the
  field \<^verbatim>\<open>message\<close> only. That request is the one the handler passes to \<^verbatim>\<open>fetch\<close>,
  and the only one.
\<close>

theorem history_sent_with_request:
  assumes "trim (inputMessage w) \<noteq> []" and "\<not> isLoading w" and "\<not> isStreaming w"
  shows "conversation_history (theRequest e w)
           = map entry (drop (length (messages w) - 6) (messages w))
    \<and> length (conversation_history (theRequest e w)) \<le> 6
    \<and> message (theRequest e w) = trim (inputMessage w)
    \<and> handleSendMessage parse e w
        = tryCatch (afterFetch parse e (fetch e (theRequest e w))
                     (callFetch (theRequest e w) (beforeFetch e w)))
    \<and> requests (callFetch (theRequest e w) (beforeFetch e w)) = requests w @ [theRequest e w]
    \<and> (\<forall>w'. handleSendMessage parse e w = Some w' \<longrightarrow>
          requests w' = requests w @ [theRequest e w])"
proof -
  have "conversation_history (theRequest e w)
           = map entry (drop (length (messages w) - 6) (messages w))"
    by (simp add: theRequest_def getConversationHistory_def slice_last_six)
  moreover have "length (conversation_history (theRequest e w)) \<le> 6"
    by (simp add: theRequest_def getConversationHistory_def slice_last_six)
  moreover have "message (theRequest e w) = trim (inputMessage w)"
    by (simp add: theRequest_def userMessage_def)
  moreover have "requests (callFetch (theRequest e w) (beforeFetch e w))
      = requests w @ [theRequest e w]"
    by (simp add: callFetch_def beforeFetch_def)
  moreover note handleSendMessage_accepted[OF assms, of parse e]
  moreover have "\<forall>w'. handleSendMessage parse e w = Some w' \<longrightarrow>
          requests w' = requests w @ [theRequest e w]"
    using submit_frame[OF assms] by blast
  ultimately show ?thesis by blast
qed

text \<open>C1 at the idle example session, whose transcript has one message.\<close>

theorem history_sent_with_request_witness:
  "trim (inputMessage exWorld) \<noteq> [] \<and> \<not> isLoading exWorld \<and> \<not> isStreaming exWorld
   \<and> conversation_history (theRequest (exEnv (streamOf helloStream)) exWorld)
       = [\<lparr>role_h = Assistant, content_h = ''Hola''\<rparr>]
   \<and> message (theRequest (exEnv (streamOf helloStream)) exWorld) = ''hi''
   \<and> handleSendMessage JSON_parse (exEnv (streamOf helloStream)) exWorld
       = Some (repliedWorld ''Hello'' False [])
   \<and> requests (repliedWorld ''Hello'' False [])
       = [theRequest (exEnv (streamOf helloStream)) exWorld]"
proof -
  have a: "trim (inputMessage exWorld) \<noteq> []" "\<not> isLoading exWorld" "\<not> isStreaming exWorld"
    by (simp_all add: exWorld_def trim_def isWhiteSpace_def)
  from history_sent_with_request[OF a, of "exEnv (streamOf helloStream)" JSON_parse] hello_run a
  show ?thesis
    by (simp add: example_defs handler_defs)
qed

text \<open>
  C1, as stated, puts the user turn just added at the end of the history. In the example
  the request carries a history of one entry, the greeting; the recent history of the
  transcript after the user message was added would have two, ending with that message.
\<close>

theorem history_includes_new_turn_counterexample:
  "handleSendMessage JSON_parse (exEnv (streamOf helloStream)) exWorld
     = Some (repliedWorld ''Hello'' False [])
   \<and> map conversation_history (requests (repliedWorld ''Hello'' False []))
       = [[\<lparr>role_h = Assistant, content_h = ''Hola''\<rparr>]]
   \<and> getConversationHistory (messages (beforeFetch (exEnv (streamOf helloStream)) exWorld))
       = [\<lparr>role_h = Assistant, content_h = ''Hola''\<rparr>, \<lparr>role_h = User, content_h = ''hi''\<rparr>]"
  by (simp add: helloStream_def example_defs handler_defs readLoop_readerOf parser_defs line_defs)

section \<open>The guard of the handler\<close>

text \<open>
  C4, as the code has it. A call made while a request is awaited or a reply is streamed,
  or with an input that is empty after trimming, returns at the guard: the state is the
  one it started from, transcript included, and the logs of requests and of warnings
  are unchanged, so no request was issued.
\<close>

theorem submit_guard_noop:
  assumes "sessionStateOf w = AwaitingResponse \<or> sessionStateOf w = StreamingAssistantReply
             \<or> trim (inputMessage w) = []"
  shows "handleSendMessage parse e w = Some w"
proof -
  from assms have "trim (inputMessage w) = [] \<or> isLoading w \<or> isStreaming w"
    using sessionState_in_flight[of w] by blast
  then show ?thesis by (simp add: handleSendMessage_def)
qed

text \<open>C4 at a session that is streaming a reply, and at an input of white space only.\<close>

theorem submit_guard_noop_witness:
  "sessionStateOf (exWorld\<lparr>isStreaming := True\<rparr>) = StreamingAssistantReply
   \<and> handleSendMessage JSON_parse (exEnv (streamOf [])) (exWorld\<lparr>isStreaming := True\<rparr>)
       = Some (exWorld\<lparr>isStreaming := True\<rparr>)
   \<and> trim (inputMessage (exWorld\<lparr>inputMessage := [CHR '' '', CHR 0x09, CHR 0x0A]\<rparr>)) = []
   \<and> handleSendMessage JSON_parse (exEnv (streamOf []))
         (exWorld\<lparr>inputMessage := [CHR '' '', CHR 0x09, CHR 0x0A]\<rparr>)
       = Some (exWorld\<lparr>inputMessage := [CHR '' '', CHR 0x09, CHR 0x0A]\<rparr>)"
  using submit_guard_noop[of "exWorld\<lparr>isStreaming := True\<rparr>" JSON_parse "exEnv (streamOf [])"]
    submit_guard_noop[of "exWorld\<lparr>inputMessage := [CHR '' '', CHR 0x09, CHR 0x0A]\<rparr>"
      JSON_parse "exEnv (streamOf [])"]
  by (simp add: sessionStateOf_def exWorld_def trim_def isWhiteSpace_def)

text \<open>
  C4, as stated, makes every call outside the idle state a no-op. A session in the error
  state is not idle, yet the guard reads only the two flags: the call goes through, adds
  the user message and issues a request (here \<^verbatim>\<open>fetch\<close> is rejected, which ends the
  exchange at once).
\<close>

theorem submit_in_error_state_counterexample:
  "sessionStateOf (exWorld\<lparr>error := Some ''boom''\<rparr>) = ErrorState
   \<and> handleSendMessage JSON_parse (exEnv (FetchRejects (ErrorObject ''offline'')))
         (exWorld\<lparr>error := Some ''boom''\<rparr>)
       = Some \<lparr>messages = [greeting,
                   \<lparr>id_m = ''u1'', content = ''hi'', role = User, timestamp = 1000\<rparr>],
                inputMessage = [], isLoading = False, isStreaming = False,
                error = Some ''offline'',
                requests = [\<lparr>url = ''http://api/stream'', message = ''hi'',
                             conversation_history = [\<lparr>role_h = Assistant, content_h = ''Hola''\<rparr>]\<rparr>],
                warnings = []\<rparr>"
  by (simp add: sessionStateOf_def example_defs handler_defs)

section \<open>An accepted call\<close>



section \<open>A response that is not a success\<close>

text \<open>
  C9. When the response has a status outside 200 to 299, the accepted call ends with the
  error message made of the status and the status text; the transcript has gained the
  user message and nothing else, both flags are down, and the session is in the error
  state.
\<close>

theorem non_success_status_fails:
  assumes "trim (inputMessage w) \<noteq> []" and "\<not> isLoading w" and "\<not> isStreaming w"
    and "fetch e (theRequest e w) = Resolves resp" and "\<not> ok resp"
  shows "\<exists>w'. handleSendMessage parse e w = Some w'
    \<and> error w' = Some (''HTTP '' @ decimal (status resp) @ '': '' @ statusText resp)
    \<and> messages w' = messages w @ [userMessage e w]
    \<and> requests w' = requests w @ [theRequest e w]
    \<and> \<not> isLoading w' \<and> \<not> isStreaming w'
    \<and> sessionStateOf w' = ErrorState"
  using assms
  by (simp add: handleSendMessage_def afterFetch_def catchError_def callFetch_def
        beforeFetch_def sessionStateOf_def)

text \<open>C9 at a response with status 500.\<close>

theorem non_success_status_fails_witness:
  "\<exists>w'. handleSendMessage JSON_parse
           (exEnv (Resolves \<lparr>status = 500, statusText = ''Internal Server Error'', body = None\<rparr>))
           exWorld = Some w'
    \<and> error w' = Some ''HTTP 500: Internal Server Error''
    \<and> messages w' = [greeting, \<lparr>id_m = ''u1'', content = ''hi'', role = User, timestamp = 1000\<rparr>]
    \<and> sessionStateOf w' = ErrorState"
  using non_success_status_fails[of exWorld
     "exEnv (Resolves \<lparr>status = 500, statusText = ''Internal Server Error'', body = None\<rparr>)"
     "\<lparr>status = 500, statusText = ''Internal Server Error'', body = None\<rparr>" JSON_parse]
  by (simp add: example_defs handler_defs decimal.simps digit_def)

section \<open>A stream that ends with the completion signal\<close>

text \<open>
  C7. A line whose payload has a chunk that is a string and not empty, no error and no
  completion signal, carries that string as its fragment. Every line that carries a
  fragment (a payload with a chunk that counts as true and converts to a string, and
  neither an error nor a completion signal) adds the fragment to the local buffer and
  sets the content of the assistant message to the whole buffer. When the lines of the
  reads so far are some lines without a completion signal followed by a line with one,
  the accepted call ends at that line, whatever the reader would have delivered
  afterwards: the last message is the assistant message with the fragments of the
  earlier lines in their order as its content, the transcript has grown by two messages
  (and is the old one followed by the user message and that assistant message when the
  new identifier is not in use), both flags are down and no error is set, so the session
  is idle.
\<close>

theorem stream_success_path:
  assumes "trim (inputMessage w) \<noteq> []" and "\<not> isLoading w" and "\<not> isStreaming w"
    and "fetch e (theRequest e w) = Resolves resp" and "ok resp" and "body resp = Some rd"
    and "delivers rd 0 chunks"
    and "concat (map split_nl chunks) = before @ doneL # after"
    and "\<forall>l \<in> set before. \<not> doneLine parse l"
    and "doneLine parse doneL"
  shows "(\<forall>l d s. dataOf parse l = Some d \<and> getProp d ''chunk'' = Some (JStr s) \<and> s \<noteq> []
              \<and> \<not> truthy (getProp d ''error'') \<and> \<not> truthy (getProp d ''done'')
            \<longrightarrow> chunkLine parse l \<and> fragmentOf parse l = s)
    \<and> (\<forall>l c v. chunkLine parse l \<longrightarrow>
            processLine parse (assistantMessageId e) l c v
              = Continue (c @ fragmentOf parse l)
                  (v\<lparr>messages := setContent (assistantMessageId e) (c @ fragmentOf parse l)
                                    (messages v)\<rparr>))
    \<and> (\<exists>w'. handleSendMessage parse e w = Some w'
          \<and> last (messages w') = (assistantMessage e)\<lparr>content := fragments parse before\<rparr>
          \<and> length (messages w') = length (messages w) + 2
          \<and> (assistantMessageId e \<notin> id_m ` set (messages w) \<and> assistantMessageId e \<noteq> userId e
                \<longrightarrow> messages w' = messages w
                      @ [userMessage e w, (assistantMessage e)\<lparr>content := fragments parse before\<rparr>])
          \<and> \<not> isLoading w' \<and> \<not> isStreaming w' \<and> error w' = None
          \<and> sessionStateOf w' = Idle)"
proof (intro conjI)
  show "\<forall>l d s. dataOf parse l = Some d \<and> getProp d ''chunk'' = Some (JStr s) \<and> s \<noteq> []
              \<and> \<not> truthy (getProp d ''error'') \<and> \<not> truthy (getProp d ''done'')
            \<longrightarrow> chunkLine parse l \<and> fragmentOf parse l = s"
    using string_chunk_line by blast
  show "\<forall>l c v. chunkLine parse l \<longrightarrow>
            processLine parse (assistantMessageId e) l c v
              = Continue (c @ fragmentOf parse l)
                  (v\<lparr>messages := setContent (assistantMessageId e) (c @ fragmentOf parse l)
                                    (messages v)\<rparr>)"
    by (simp add: processLine_chunk)
next
  let ?aid = "assistantMessageId e"
  let ?F = "fragments parse before"
  let ?w2 = "callFetch (theRequest e w) (beforeFetch e w)"
  let ?w3 = "?w2\<lparr>messages := messages ?w2 @ [assistantMessage e], isLoading := False\<rparr>"
  let ?ms = "if \<exists>l \<in> set before. chunkLine parse l
             then setContent ?aid ?F (messages ?w3) else messages ?w3"
  have run: "handleSendMessage parse e w = tryCatch (readLoop parse ?aid rd 0 [] ?w3)"
    using assms(4-6) by (simp add: handleSendMessage_accepted[OF assms(1-3)] afterFetch_def Let_def)
  from processLines_no_done_world[OF assms(9), of ?aid "[]" ?w3] obtain w4 where
    pre: "processLines parse ?aid before [] ?w3 = Continue ([] @ ?F) w4"
    and w4: "messages w4 = (if \<exists>l \<in> set before. chunkLine parse l
                        then setContent ?aid ([] @ ?F) (messages ?w3)
                        else messages ?w3)"
      "isLoading w4 = isLoading ?w3" "error w4 = error ?w3"
    by blast
  have "processLines parse ?aid (before @ doneL # after) [] ?w3 = Returned (w4\<lparr>isStreaming := False\<rparr>)"
    by (simp add: processLines_append pre processLine_done[OF assms(10)])
  with readLoop_values[OF assms(7), of parse ?aid "[]" ?w3] assms(8)
  have "readLoop parse ?aid rd 0 [] ?w3 = Some (Normal (w4\<lparr>isStreaming := False\<rparr>))"
    by simp
  with run have res: "handleSendMessage parse e w = Some (w4\<lparr>isStreaming := False\<rparr>)"
    by simp
  have ms3: "messages ?w3 = (messages w @ [userMessage e w]) @ [assistantMessage e]"
    by (simp add: callFetch_def beforeFetch_def)
  have aid: "id_m (assistantMessage e) = ?aid"
    by (simp add: assistantMessage_def)
  have F0: "\<not> (\<exists>l \<in> set before. chunkLine parse l) \<Longrightarrow> ?F = []"
    by (simp add: fragments_def fragments_no_chunk)
  have am0: "(assistantMessage e)\<lparr>content := []\<rparr> = assistantMessage e"
    by (simp add: assistantMessage_def)
  have l: "last ?ms = (assistantMessage e)\<lparr>content := ?F\<rparr>"
  proof (cases "\<exists>l \<in> set before. chunkLine parse l")
    case True
    then show ?thesis by (simp only: ms3 last_setContent[OF aid] if_True append_Nil)
  next
    case False
    from F0[OF False] am0 have "(assistantMessage e)\<lparr>content := ?F\<rparr> = assistantMessage e"
      by simp
    with False show ?thesis by (simp only: ms3 last_snoc if_False)
  qed
  have len: "length ?ms = length (messages w) + 2"
    by (simp add: length_setContent callFetch_def beforeFetch_def)
  have fresh: "?aid \<notin> id_m ` set (messages w) \<and> ?aid \<noteq> userId e
     \<longrightarrow> ?ms = messages w @ [userMessage e w, (assistantMessage e)\<lparr>content := ?F\<rparr>]"
  proof
    assume a: "?aid \<notin> id_m ` set (messages w) \<and> ?aid \<noteq> userId e"
    then have "?aid \<notin> id_m ` set (messages w @ [userMessage e w])"
      by (simp add: userMessage_def)
    from setContent_fresh[OF this]
    have "setContent ?aid ?F (messages ?w3)
        = (messages w @ [userMessage e w]) @ [(assistantMessage e)\<lparr>content := ?F\<rparr>]"
      by (simp only: ms3 setContent_append[of ?aid ?F "messages w @ [userMessage e w]"]
            setContent_single[OF aid])
    then show "?ms = messages w @ [userMessage e w, (assistantMessage e)\<lparr>content := ?F\<rparr>]"
    proof (cases "\<exists>l \<in> set before. chunkLine parse l")
      case True
      with \<open>setContent ?aid ?F (messages ?w3)
        = (messages w @ [userMessage e w]) @ [(assistantMessage e)\<lparr>content := ?F\<rparr>]\<close>
      show ?thesis by simp
    next
      case False
      from F0[OF False] am0 have "(assistantMessage e)\<lparr>content := ?F\<rparr> = assistantMessage e"
        by simp
      with False ms3 show ?thesis by simp
    qed
  qed
  have flags: "\<not> isLoading (w4\<lparr>isStreaming := False\<rparr>)" "\<not> isStreaming (w4\<lparr>isStreaming := False\<rparr>)"
    "error (w4\<lparr>isStreaming := False\<rparr>) = None"
    using w4(2,3) by (simp_all add: callFetch_def beforeFetch_def)
  then have idle: "sessionStateOf (w4\<lparr>isStreaming := False\<rparr>) = Idle"
    by (simp add: sessionStateOf_def)
  have msgs: "messages (w4\<lparr>isStreaming := False\<rparr>) = ?ms" using w4(1) by simp
  show "\<exists>w'. handleSendMessage parse e w = Some w'
          \<and> last (messages w') = (assistantMessage e)\<lparr>content := fragments parse before\<rparr>
          \<and> length (messages w') = length (messages w) + 2
          \<and> (assistantMessageId e \<notin> id_m ` set (messages w) \<and> assistantMessageId e \<noteq> userId e
                \<longrightarrow> messages w' = messages w
                      @ [userMessage e w, (assistantMessage e)\<lparr>content := fragments parse before\<rparr>])
          \<and> \<not> isLoading w' \<and> \<not> isStreaming w' \<and> error w' = None
          \<and> sessionStateOf w' = Idle"
    apply (rule exI[of _ "w4\<lparr>isStreaming := False\<rparr>"])
    apply (intro conjI)
           apply (rule res)
          apply (subst msgs, rule l)
         apply (subst msgs, rule len)
        apply (subst msgs, rule fresh)
       apply (rule flags)+
    apply (rule idle)
    done
qed

text \<open>
  C7 at the stream of the specification (Hel, lo, done, one line a read), at the same
  lines delivered in one read with more text after them, and at the line lo.
\<close>

theorem stream_success_path_witness:
  \<open>(\<exists>w'. handleSendMessage JSON_parse (exEnv (streamOf helloStream)) exWorld = Some w'
       \<and> messages w'
           = [greeting,
              \<lparr>id_m = ''u1'', content = ''hi'', role = User, timestamp = 1000\<rparr>,
              \<lparr>id_m = ''a1'', content = ''Hello'', role = Assistant, timestamp = 1001\<rparr>]
       \<and> sessionStateOf w' = Idle)
   \<and> (\<exists>w'. handleSendMessage JSON_parse (exEnv (streamOf helloOneReadStream)) exWorld = Some w'
       \<and> messages w'
           = [greeting,
              \<lparr>id_m = ''u1'', content = ''hi'', role = User, timestamp = 1000\<rparr>,
              \<lparr>id_m = ''a1'', content = ''Hello'', role = Assistant, timestamp = 1001\<rparr>]
       \<and> sessionStateOf w' = Idle)
   \<and> dataOf JSON_parse ''data: {"chunk":"lo"}'' = Some (JObj [(''chunk'', JStr ''lo'')])
   \<and> chunkLine JSON_parse ''data: {"chunk":"lo"}''
   \<and> fragmentOf JSON_parse ''data: {"chunk":"lo"}'' = ''lo''
   \<and> processLine JSON_parse ''a1'' ''data: {"chunk":"lo"}'' ''Hel'' (repliedWorld ''Hel'' True [])
       = Continue ''Hello'' (repliedWorld ''Hello'' True [])\<close>
proof -
  let ?e = "exEnv (streamOf helloStream)"
  let ?resp = "\<lparr>status = 200, statusText = ''OK'', body = Some (readerOf helloStream)\<rparr>"
  let ?chunks = \<open>[''data: {"chunk":"Hel"}\<newline>'', ''data: {"chunk":"lo"}\<newline>'',
                   ''data: {"done":true}\<newline>'']\<close>
  let ?before = \<open>[''data: {"chunk":"Hel"}'', [], ''data: {"chunk":"lo"}'', []]\<close>
  let ?e1 = "exEnv (streamOf helloOneReadStream)"
  let ?resp1 = "\<lparr>status = 200, statusText = ''OK'', body = Some (readerOf helloOneReadStream)\<rparr>"
  let ?chunks1 = \<open>[''data: {"chunk":"Hel"}\<newline>data: {"chunk":"lo"}\<newline>data: {"done":true}\<newline>data: {"chunk":"late"}\<newline>'']\<close>
  let ?before1 = \<open>[''data: {"chunk":"Hel"}'', ''data: {"chunk":"lo"}'']\<close>
  let ?after1 = \<open>[''data: {"chunk":"late"}'', []]\<close>
  let ?doneL = \<open>''data: {"done":true}''\<close>
  let ?lo = \<open>''data: {"chunk":"lo"}''\<close>
  let ?d = "JObj [(''chunk'', JStr ''lo'')]"
  have a: "trim (inputMessage exWorld) \<noteq> []" "\<not> isLoading exWorld" "\<not> isStreaming exWorld"
    by (simp_all add: exWorld_def trim_def isWhiteSpace_def)
  have f: "fetch ?e (theRequest ?e exWorld) = Resolves ?resp"
    by (simp add: exEnv_def streamOf_def)
  have k: "ok ?resp" "body ?resp = Some (readerOf helloStream)"
    by (simp_all add: ok_def)
  have d: "delivers (readerOf helloStream) 0 ?chunks"
    by (simp add: readerOf_def helloStream_def)
  have s: "concat (map split_nl ?chunks) = ?before @ ?doneL # [[]]"
    by simp
  have nd: "\<forall>l \<in> set ?before. \<not> doneLine JSON_parse l"
    by (simp add: payload_defs parser_defs)
  have dl: "doneLine JSON_parse ?doneL"
    by (simp add: payload_defs parser_defs)
  have fr: "fragments JSON_parse ?before = ''Hello''"
    by (simp add: payload_defs parser_defs)
  have f1: "fetch ?e1 (theRequest ?e1 exWorld) = Resolves ?resp1"
    by (simp add: exEnv_def streamOf_def)
  have k1: "ok ?resp1" "body ?resp1 = Some (readerOf helloOneReadStream)"
    by (simp_all add: ok_def)
  have d1: "delivers (readerOf helloOneReadStream) 0 ?chunks1"
    by (simp add: readerOf_def helloOneReadStream_def)
  have s1: "concat (map split_nl ?chunks1) = ?before1 @ ?doneL # ?after1"
    by simp
  have nd1: "\<forall>l \<in> set ?before1. \<not> doneLine JSON_parse l"
    by (simp add: payload_defs parser_defs)
  have fr1: "fragments JSON_parse ?before1 = ''Hello''"
    by (simp add: payload_defs parser_defs)
  have dat: "dataOf JSON_parse ?lo = Some ?d"
    by (simp add: dataOf_def startsWith_def slice_s_def parser_defs)
  have pl: "getProp ?d ''chunk'' = Some (JStr ''lo'')" "''lo'' \<noteq> []"
    "\<not> truthy (getProp ?d ''error'')" "\<not> truthy (getProp ?d ''done'')"
    by simp_all
  have fresh: "assistantMessageId ?e \<notin> id_m ` set (messages exWorld)
      \<and> assistantMessageId ?e \<noteq> userId ?e"
    by (simp add: example_defs)
  have fresh1: "assistantMessageId ?e1 \<notin> id_m ` set (messages exWorld)
      \<and> assistantMessageId ?e1 \<noteq> userId ?e1"
    by (simp add: example_defs)
  note T = stream_success_path[OF a f k d s nd dl]
  note T1 = stream_success_path[OF a f1 k1 d1 s1 nd1 dl]
  from T dat pl have cl: "chunkLine JSON_parse ?lo" and fl: "fragmentOf JSON_parse ?lo = ''lo''"
    by blast+
  from T cl have "processLine JSON_parse (assistantMessageId ?e) ?lo ''Hel''
        (repliedWorld ''Hel'' True [])
      = Continue (''Hel'' @ fragmentOf JSON_parse ?lo)
          ((repliedWorld ''Hel'' True [])\<lparr>messages :=
              setContent (assistantMessageId ?e) (''Hel'' @ fragmentOf JSON_parse ?lo)
                (messages (repliedWorld ''Hel'' True []))\<rparr>)"
    by blast
  then have line: "processLine JSON_parse ''a1'' ?lo ''Hel'' (repliedWorld ''Hel'' True [])
       = Continue ''Hello'' (repliedWorld ''Hello'' True [])"
    by (simp add: fl example_defs setContent_def)
  from T fresh obtain w' where
    "handleSendMessage JSON_parse ?e exWorld = Some w'"
    "messages w' = messages exWorld
        @ [userMessage ?e exWorld, (assistantMessage ?e)\<lparr>content := fragments JSON_parse ?before\<rparr>]"
    "sessionStateOf w' = Idle"
    by blast
  then have run: "\<exists>w'. handleSendMessage JSON_parse ?e exWorld = Some w'
       \<and> messages w'
           = [greeting,
              \<lparr>id_m = ''u1'', content = ''hi'', role = User, timestamp = 1000\<rparr>,
              \<lparr>id_m = ''a1'', content = ''Hello'', role = Assistant, timestamp = 1001\<rparr>]
       \<and> sessionStateOf w' = Idle"
    by (simp add: fr example_defs userMessage_def assistantMessage_def trim_def isWhiteSpace_def)
  from T1 fresh1 obtain w1 where
    "handleSendMessage JSON_parse ?e1 exWorld = Some w1"
    "messages w1 = messages exWorld
        @ [userMessage ?e1 exWorld, (assistantMessage ?e1)\<lparr>content := fragments JSON_parse ?before1\<rparr>]"
    "sessionStateOf w1 = Idle"
    by blast
  then have run1: "\<exists>w'. handleSendMessage JSON_parse ?e1 exWorld = Some w'
       \<and> messages w'
           = [greeting,
              \<lparr>id_m = ''u1'', content = ''hi'', role = User, timestamp = 1000\<rparr>,
              \<lparr>id_m = ''a1'', content = ''Hello'', role = Assistant, timestamp = 1001\<rparr>]
       \<and> sessionStateOf w' = Idle"
    by (simp add: fr1 example_defs userMessage_def assistantMessage_def trim_def isWhiteSpace_def)
  from run run1 dat cl fl line show ?thesis by blast
qed

section \<open>Lines that carry no payload\<close>

text \<open>
  C8. A line that begins with the prefix and whose remainder does not parse is answered
  with a warning, and the loop goes on with the buffer and the state as they were; a line
  without the prefix is passed over. Taking such a line out of a run of lines changes
  nothing in the result but the log of warnings, wherever the line stands; between two
  lines that carry fragments, both fragments are appended in order.
\<close>

theorem malformed_line_dropped:
  "(startsWith ''data: '' line \<and> parse (slice_s 6 line) = None \<longrightarrow>
      processLine parse aid line c w = Continue c (console_warn SyntaxError w))
   \<and> (\<not> startsWith ''data: '' line \<longrightarrow> processLine parse aid line c w = Continue c w)
   \<and> (dataOf parse line = None \<longrightarrow>
        unwarned (processLines parse aid (xs @ line # ys) c w)
          = unwarned (processLines parse aid (xs @ ys) c w))
   \<and> (chunkLine parse l1 \<and> chunkLine parse l2 \<and> dataOf parse line = None \<longrightarrow>
        unwarned (processLines parse aid [l1, line, l2] c w)
          = Continue (c @ fragmentOf parse l1 @ fragmentOf parse l2)
              (w\<lparr>messages := setContent aid (c @ fragmentOf parse l1 @ fragmentOf parse l2)
                               (messages w),
                 warnings := []\<rparr>))"
proof (intro conjI impI)
  assume "startsWith ''data: '' line \<and> parse (slice_s 6 line) = None"
  then show "processLine parse aid line c w = Continue c (console_warn SyntaxError w)"
    by (simp add: processLine_def)
next
  assume "\<not> startsWith ''data: '' line"
  then show "processLine parse aid line c w = Continue c w"
    by (simp add: processLine_def)
next
  assume "dataOf parse line = None"
  then show "unwarned (processLines parse aid (xs @ line # ys) c w)
          = unwarned (processLines parse aid (xs @ ys) c w)"
    by (rule no_data_dropped)
next
  assume a: "chunkLine parse l1 \<and> chunkLine parse l2 \<and> dataOf parse line = None"
  then have "unwarned (processLines parse aid ([l1] @ line # [l2]) c w)
      = unwarned (processLines parse aid ([l1] @ [l2]) c w)"
    by (intro no_data_dropped) simp
  with a show "unwarned (processLines parse aid [l1, line, l2] c w)
          = Continue (c @ fragmentOf parse l1 @ fragmentOf parse l2)
              (w\<lparr>messages := setContent aid (c @ fragmentOf parse l1 @ fragmentOf parse l2)
                               (messages w),
                 warnings := []\<rparr>)"
    by (simp add: processLine_chunk setContent_twice)
qed

text \<open>
  C8 at the malformed line of the specification, at a line without the prefix, and at the
  whole exchange in which the malformed line stands between Hel and lo.
\<close>

theorem malformed_line_dropped_witness:
  \<open>startsWith ''data: '' ''data: {not valid json}''
   \<and> JSON_parse (slice_s 6 ''data: {not valid json}'') = None
   \<and> processLine JSON_parse ''a1'' ''data: {not valid json}'' ''Hel'' (repliedWorld ''Hel'' True [])
       = Continue ''Hel'' (repliedWorld ''Hel'' True [SyntaxError])
   \<and> \<not> startsWith ''data: '' ''event: ping''
   \<and> processLine JSON_parse ''a1'' ''event: ping'' ''Hel'' (repliedWorld ''Hel'' True [])
       = Continue ''Hel'' (repliedWorld ''Hel'' True [])
   \<and> chunkLine JSON_parse ''data: {"chunk":"Hel"}'' \<and> chunkLine JSON_parse ''data: {"chunk":"lo"}''
   \<and> unwarned (processLines JSON_parse ''a1''
         [''data: {"chunk":"Hel"}'', ''data: {not valid json}'', ''data: {"chunk":"lo"}'']
         [] (repliedWorld [] True []))
       = Continue ''Hello'' (repliedWorld ''Hello'' True [])
   \<and> unwarned (processLines JSON_parse ''a1''
         ([''data: {"chunk":"Hel"}''] @ ''data: {not valid json}'' # [''data: {"chunk":"lo"}''])
         [] (repliedWorld [] True []))
       = unwarned (processLines JSON_parse ''a1''
         ([''data: {"chunk":"Hel"}''] @ [''data: {"chunk":"lo"}'']) [] (repliedWorld [] True []))
   \<and> handleSendMessage JSON_parse (exEnv (streamOf interleavedStream)) exWorld
       = Some (repliedWorld ''Hello'' False [SyntaxError])\<close>
proof -
  let ?bad = \<open>''data: {not valid json}''\<close>
  let ?l1 = \<open>''data: {"chunk":"Hel"}''\<close>
  let ?l2 = \<open>''data: {"chunk":"lo"}''\<close>
  have b: "startsWith ''data: '' ?bad" "JSON_parse (slice_s 6 ?bad) = None" "dataOf JSON_parse ?bad = None"
    by (simp_all add: payload_defs parser_defs)
  have p: "\<not> startsWith ''data: '' ''event: ping''"
    by (simp add: startsWith_def)
  have c: "chunkLine JSON_parse ?l1" "chunkLine JSON_parse ?l2"
    by (simp_all add: payload_defs parser_defs)
  have fr: "fragmentOf JSON_parse ?l1 = ''Hel''" "fragmentOf JSON_parse ?l2 = ''lo''"
    by (simp_all add: payload_defs parser_defs)
  from malformed_line_dropped[of ?bad JSON_parse "''a1''" "''Hel''" "repliedWorld ''Hel'' True []"] b
  have one: "processLine JSON_parse ''a1'' ?bad ''Hel'' (repliedWorld ''Hel'' True [])
       = Continue ''Hel'' (repliedWorld ''Hel'' True [SyntaxError])"
    by (simp add: console_warn_def example_defs)
  from malformed_line_dropped[of "''event: ping''" JSON_parse "''a1''" "''Hel''" "repliedWorld ''Hel'' True []"] p
  have two: "processLine JSON_parse ''a1'' ''event: ping'' ''Hel'' (repliedWorld ''Hel'' True [])
       = Continue ''Hel'' (repliedWorld ''Hel'' True [])"
    by simp
  note T = malformed_line_dropped[of ?bad JSON_parse "''a1''" "[]" "repliedWorld [] True []"
      "[?l1]" "[?l2]" ?l1 ?l2]
  from T b c
  have raw: "unwarned (processLines JSON_parse ''a1'' [?l1, ?bad, ?l2] [] (repliedWorld [] True []))
       = Continue ([] @ fragmentOf JSON_parse ?l1 @ fragmentOf JSON_parse ?l2)
           ((repliedWorld [] True [])\<lparr>messages :=
               setContent ''a1'' ([] @ fragmentOf JSON_parse ?l1 @ fragmentOf JSON_parse ?l2)
                 (messages (repliedWorld [] True [])),
             warnings := []\<rparr>)"
    by blast
  have rhs: "Continue ([] @ fragmentOf JSON_parse ?l1 @ fragmentOf JSON_parse ?l2)
           ((repliedWorld [] True [])\<lparr>messages :=
               setContent ''a1'' ([] @ fragmentOf JSON_parse ?l1 @ fragmentOf JSON_parse ?l2)
                 (messages (repliedWorld [] True [])),
             warnings := []\<rparr>)
       = Continue ''Hello'' (repliedWorld ''Hello'' True [])"
    by (simp add: fr example_defs setContent_def)
  from raw rhs
  have three: "unwarned (processLines JSON_parse ''a1'' [?l1, ?bad, ?l2] [] (repliedWorld [] True []))
       = Continue ''Hello'' (repliedWorld ''Hello'' True [])"
    by (rule trans)
  from T b
  have four: "unwarned (processLines JSON_parse ''a1'' ([?l1] @ ?bad # [?l2]) [] (repliedWorld [] True []))
       = unwarned (processLines JSON_parse ''a1'' ([?l1] @ [?l2]) [] (repliedWorld [] True []))"
    by blast
  from b p c one two three four interleaved_run show ?thesis by blast
qed

section \<open>An error payload\<close>

text \<open>
  A line whose payload has an \<^verbatim>\<open>error\<close> that counts as true: the \<^verbatim>\<open>Error\<close> thrown for
  it is caught by the \<^verbatim>\<open>catch\<close> that surrounds \<^verbatim>\<open>JSON.parse\<close>, so the line ends in a
  warning and the loop goes on.
\<close>

lemma error_line_only_warns:
  assumes "dataOf parse line = Some d" and "errorPayload d"
  shows "processLine parse aid line c w
     = Continue c
         (console_warn
            (case toStringU (getProp d ''error'') of
               None \<Rightarrow> TypeError
             | Some m \<Rightarrow> PayloadError m) w)"
  using assms by (simp add: processLine_unfold errorPayload_def)

text \<open>
  C2 asks that a stream whose first payload is the error boom ends the exchange as a
  failure. The code does not: when the body ends after that payload, the content stays
  empty but no error is recorded and the streaming flag stays up; when a fragment and the
  completion signal follow, the fragment is applied and the session ends idle. In both
  runs the error value is only in the log of warnings.
\<close>

theorem error_payload_is_swallowed:
  "handleSendMessage JSON_parse (exEnv (streamOf boomOnlyStream)) exWorld
     = Some (repliedWorld [] True [PayloadError ''boom''])
   \<and> error (repliedWorld [] True [PayloadError ''boom'']) = None
   \<and> sessionStateOf (repliedWorld [] True [PayloadError ''boom'']) = StreamingAssistantReply
   \<and> handleSendMessage JSON_parse (exEnv (streamOf boomStream)) exWorld
     = Some (repliedWorld ''late'' False [PayloadError ''boom''])
   \<and> error (repliedWorld ''late'' False [PayloadError ''boom'']) = None
   \<and> sessionStateOf (repliedWorld ''late'' False [PayloadError ''boom'']) = Idle"
  by (simp add: boomOnlyStream_def boomStream_def example_defs handler_defs readLoop_readerOf
        parser_defs line_defs sessionStateOf_def)

section \<open>A body that ends without the completion signal\<close>

text \<open>
  When the reader reports the end and no line had the completion signal, the loop is left
  by \<^verbatim>\<open>break\<close> and nothing lowers \<^verbatim>\<open>isStreaming\<close>: the two other ways out of the
  exchange, the completion signal and the \<^verbatim>\<open>catch\<close> clause, both do.
\<close>

lemma eof_without_done:
  assumes "trim (inputMessage w) \<noteq> []" and "\<not> isLoading w" and "\<not> isStreaming w"
    and "fetch e (theRequest e w) = Resolves resp" and "ok resp" and "body resp = Some rd"
    and "delivers rd 0 chunks" and "rd (length chunks) = Done"
    and "\<forall>l \<in> set (concat (map split_nl chunks)). \<not> doneLine parse l"
  shows "\<exists>w'. handleSendMessage parse e w = Some w' \<and> isStreaming w' \<and> \<not> isLoading w'
     \<and> error w' = None \<and> sessionStateOf w' = StreamingAssistantReply"
proof -
  let ?aid = "assistantMessageId e"
  let ?w2 = "callFetch (theRequest e w) (beforeFetch e w)"
  let ?w3 = "?w2\<lparr>messages := messages ?w2 @ [assistantMessage e], isLoading := False\<rparr>"
  let ?ls = "concat (map split_nl chunks)"
  have run: "handleSendMessage parse e w = tryCatch (readLoop parse ?aid rd 0 [] ?w3)"
    using assms(4-6) by (simp add: handleSendMessage_accepted[OF assms(1-3)] afterFetch_def Let_def)
  from processLines_no_done_world[OF assms(9), of ?aid "[]" ?w3] obtain w4 where
    pre: "processLines parse ?aid ?ls [] ?w3 = Continue ([] @ fragments parse ?ls) w4"
    and w4: "isLoading w4 = isLoading ?w3" "isStreaming w4 = isStreaming ?w3" "error w4 = error ?w3"
    by blast
  have "readLoop parse ?aid rd (length chunks) ([] @ fragments parse ?ls) w4 = Some (Normal w4)"
    by (subst readLoop.simps) (simp add: assms(8))
  with readLoop_values[OF assms(7), of parse ?aid "[]" ?w3] pre
  have "readLoop parse ?aid rd 0 [] ?w3 = Some (Normal w4)" by simp
  with run have "handleSendMessage parse e w = Some w4" by simp
  moreover from w4 have "isStreaming w4" "\<not> isLoading w4" "error w4 = None"
    by (simp_all add: callFetch_def beforeFetch_def)
  ultimately show ?thesis by (simp add: sessionStateOf_def)
qed

text \<open>
  C3 asks that such an exchange ends idle and permits a new call. At the stream of the
  specification (the fragment partial, then the end of the body) the content is partial
  and no error is set, but the session is left streaming, and a further call with a
  text typed in returns at the guard.
\<close>

theorem eof_without_done_keeps_streaming:
  "handleSendMessage JSON_parse (exEnv (streamOf partialStream)) exWorld
     = Some (repliedWorld ''partial'' True [])
   \<and> error (repliedWorld ''partial'' True []) = None
   \<and> sessionStateOf (repliedWorld ''partial'' True []) = StreamingAssistantReply
   \<and> trim (inputMessage ((repliedWorld ''partial'' True [])\<lparr>inputMessage := ''again''\<rparr>)) \<noteq> []
   \<and> handleSendMessage JSON_parse (exEnv (streamOf helloStream))
         ((repliedWorld ''partial'' True [])\<lparr>inputMessage := ''again''\<rparr>)
       = Some ((repliedWorld ''partial'' True [])\<lparr>inputMessage := ''again''\<rparr>)"
  by (simp add: partialStream_def example_defs handler_defs readLoop_readerOf
        parser_defs line_defs sessionStateOf_def)

section \<open>A line cut by the boundary of two reads\<close>

text \<open>
  C10, as the code has it. Each read is split into lines by itself, and nothing is carried
  over to the next read: when a line arrives as the last piece \<open>a\<close> of one read and the
  first piece \<open>b\<close> of the next, the loop handles \<open>a\<close> and \<open>b\<close> as two lines. When neither
  piece carries a payload by itself (it lacks the prefix, or its remainder does not
  parse), the result is, up to the log of warnings, the one without the line: a fragment
  that the whole line \<open>a @ b\<close> carries is never appended.
\<close>

theorem split_line_is_dropped:
  assumes "rd i = Value c1" and "rd (Suc i) = Value c2"
    and "split_nl c1 = ls1 @ [a]" and "split_nl c2 = b # ls2"
    and "dataOf parse a = None" and "dataOf parse b = None"
  shows "readLoop parse aid rd i c w =
           (case processLines parse aid (ls1 @ a # b # ls2) c w of
              Returned w' \<Rightarrow> Some (Normal w')
            | Continue c' w' \<Rightarrow> readLoop parse aid rd (Suc (Suc i)) c' w')
    \<and> unwarned (processLines parse aid (ls1 @ a # b # ls2) c w)
        = unwarned (processLines parse aid (ls1 @ ls2) c w)"
proof
  from assms(1,2) have "delivers rd i [c1, c2]" by simp
  from readLoop_values[OF this, of parse aid c w] assms(3,4)
  show "readLoop parse aid rd i c w =
           (case processLines parse aid (ls1 @ a # b # ls2) c w of
              Returned w' \<Rightarrow> Some (Normal w')
            | Continue c' w' \<Rightarrow> readLoop parse aid rd (Suc (Suc i)) c' w')"
    by (simp split: step.splits)
next
  have "unwarned (processLines parse aid (ls1 @ a # b # ls2) c w)
      = unwarned (processLines parse aid (ls1 @ b # ls2) c w)"
    by (rule no_data_dropped[OF assms(5)])
  also have "\<dots> = unwarned (processLines parse aid (ls1 @ ls2) c w)"
    by (rule no_data_dropped[OF assms(6)])
  finally show "unwarned (processLines parse aid (ls1 @ a # b # ls2) c w)
        = unwarned (processLines parse aid (ls1 @ ls2) c w)" .
qed

text \<open>C10 at a line that carries the fragment Hel and is cut inside its payload.\<close>

theorem split_line_is_dropped_witness:
  \<open>chunkLine JSON_parse (''data: {"chu'' @ ''nk":"Hel"}'')
   \<and> fragmentOf JSON_parse (''data: {"chu'' @ ''nk":"Hel"}'') = ''Hel''
   \<and> dataOf JSON_parse ''data: {"chu'' = None \<and> dataOf JSON_parse ''nk":"Hel"}'' = None
   \<and> unwarned (processLines JSON_parse ''a1''
         ([] @ ''data: {"chu'' # ''nk":"Hel"}'' # [''data: {"done":true}'', []])
         [] (repliedWorld [] True []))
       = Returned (repliedWorld [] False [])
   \<and> handleSendMessage JSON_parse (exEnv (streamOf cutStream)) exWorld
       = Some (repliedWorld [] False [SyntaxError])\<close>
proof -
  let ?a = \<open>''data: {"chu''\<close>
  let ?b = \<open>''nk":"Hel"}''\<close>
  let ?c2 = \<open>''nk":"Hel"}\<newline>data: {"done":true}\<newline>''\<close>
  let ?ls2 = \<open>[''data: {"done":true}'', []]\<close>
  have whole: "chunkLine JSON_parse (?a @ ?b)" "fragmentOf JSON_parse (?a @ ?b) = ''Hel''"
    by (simp_all add: payload_defs parser_defs)
  have r: "readerOf cutStream 0 = Value ?a" "readerOf cutStream (Suc 0) = Value ?c2"
    by (simp_all add: readerOf_def cutStream_def)
  have s: "split_nl ?a = [] @ [?a]" "split_nl ?c2 = ?b # ?ls2"
    by simp_all
  have n: "dataOf JSON_parse ?a = None" "dataOf JSON_parse ?b = None"
    by (simp_all add: payload_defs parser_defs)
  note T = split_line_is_dropped[OF r s n, of "''a1''" "[]" "repliedWorld [] True []"]
  have rest: "unwarned (processLines JSON_parse ''a1'' ([] @ ?ls2) [] (repliedWorld [] True []))
      = Returned (repliedWorld [] False [])"
    by (simp add: line_defs parser_defs example_defs)
  from T rest
  have "unwarned (processLines JSON_parse ''a1'' ([] @ ?a # ?b # ?ls2) [] (repliedWorld [] True []))
       = Returned (repliedWorld [] False [])"
    by (simp only:)
  with whole n cut_run show ?thesis by blast
qed

text \<open>
  C10, as stated, holds for every line cut in two. A line with a blank after its payload
  that is cut before the blank is a counterexample: the first piece is the complete
  payload, it parses, and its fragment is appended.
\<close>

theorem split_line_first_piece_parses_counterexample:
  \<open>chunkLine JSON_parse (''data: {"chunk":"a"}'' @ '' '')
   \<and> dataOf JSON_parse ''data: {"chunk":"a"}'' = Some (JObj [(''chunk'', JStr ''a'')])
   \<and> handleSendMessage JSON_parse (exEnv (streamOf cutAfterPayloadStream)) exWorld
       = Some (repliedWorld ''a'' False [])\<close>
  by (simp add: cutAfterPayloadStream_def example_defs handler_defs readLoop_readerOf
        parser_defs line_defs dataOf_def chunkLine_def chunkPayload_def)

end
